theory Spec2Isabelle
  imports Complex_Main "HOL-Library.AList" "HOL-Library.Char_ord" "HOL-Library.List_Lexorder"
    "HOL-Library.Multiset" "HOL-Library.Product_Lexorder"
begin

section \<open>JavaScript values and the HTTP boundary\<close>

text \<open>
  The clients are written in TypeScript (\<^verbatim>\<open>app/services/api.ts\<close>,
  \<^verbatim>\<open>app/screens/ChatScreen.tsx\<close>) and JavaScript (\<^verbatim>\<open>web/src/App.js\<close>).
  A rejected promise or a thrown exception is a value of \<open>js_error\<close>; an async
  function that may reject returns \<open>js_error + 'a\<close>. A string is a list of
  characters, a character standing for one code unit below 256.
\<close>

datatype js_error =
  Error string
  | TypeError string
  | SyntaxError string

text \<open>\<^verbatim>\<open>Number.prototype.toString\<close> on a non-negative integer: its decimal digits.\<close>

fun toString :: "nat \<Rightarrow> string" where
  "toString n =
     (if n < 10 then [''0123456789'' ! n]
      else toString (n div 10) @ [''0123456789'' ! (n mod 10)])"

declare toString.simps [simp del]

text \<open>
  \<^verbatim>\<open>String.prototype.trim\<close> removes white space and line terminators from both
  ends. Of the code units it strips, these are the ones below 256: TAB, LF, VT,
  FF, CR, SPACE and NBSP.
\<close>

definition is_whitespace :: "char \<Rightarrow> bool" where
  "is_whitespace c \<longleftrightarrow> (of_char c :: nat) \<in> {9, 10, 11, 12, 13, 32, 160}"

definition trim :: "string \<Rightarrow> string" where
  "trim s = rev (dropWhile is_whitespace (rev (dropWhile is_whitespace s)))"

text \<open>
  A JavaScript number is an IEEE 754 double. \<open>Double m e\<close> stands for the value
  \<open>m * 2 ^ e\<close>; every finite double is such a value, and the sign of a zero
  is not kept (no operation here tells \<^verbatim>\<open>-0\<close> from \<^verbatim>\<open>0\<close>).
\<close>

datatype js_number = Double int int | PosInfinity | NegInfinity | NaN






text \<open>
  The values that the clients serialise into a request body, and
  \<^verbatim>\<open>JSON.stringify\<close> on an object literal: a property whose value is
  \<^verbatim>\<open>undefined\<close> (\<open>None\<close>) is left out, the others keep their order.
\<close>

datatype json_value = JNull | JStr string | JBool bool

type_synonym json_object = "(string \<times> json_value) list"

definition JSON_stringify :: "(string \<times> json_value option) list \<Rightarrow> json_object" where
  "JSON_stringify props =
     concat (map (\<lambda>(k, v). case v of None \<Rightarrow> [] | Some j \<Rightarrow> [(k, j)]) props)"

record http_request =
  req_url :: string
  req_method :: string
  req_headers :: "(string \<times> string) list"
  req_body :: "json_object option"

text \<open>
  A \<^verbatim>\<open>Response\<close>: \<open>json\<close> is what \<^verbatim>\<open>response.json()\<close> yields, \<open>None\<close> when the
  body is not JSON text (the promise then rejects with a \<^verbatim>\<open>SyntaxError\<close>). The
  body is typed by the interface the caller casts it to; TypeScript checks
  nothing at run time, so \<open>'a\<close> stands for the bodies that have that shape.
\<close>

record 'a http_response =
  ok :: bool
  status :: nat
  json :: "'a option"

text \<open>\<^verbatim>\<open>fetch\<close> either rejects (no response at all) or resolves with a response.\<close>

datatype 'a fetch_result = Rejected js_error | Resolved "'a http_response"

type_synonym 'a fetch = "http_request \<Rightarrow> 'a fetch_result"

definition response_json :: "'a http_response \<Rightarrow> js_error + 'a" where
  "response_json response =
     (case json response of
        None \<Rightarrow> Inl (SyntaxError ''JSON Parse error'')
      | Some v \<Rightarrow> Inr v)"

section \<open>The API client (\<^verbatim>\<open>app/services/api.ts\<close>)\<close>

definition API_BASE_URL :: string where
  "API_BASE_URL = ''http://localhost:8000''"

record chat_message =
  cm_message :: string
  cm_conversation_id :: "string option"

text \<open>
  \<^verbatim>\<open>metadata: any\<close>: the renderer reads \<^verbatim>\<open>metadata.filename\<close> only, so a
  metadata value is either nullish (reading a property of it throws) or an
  object with string-valued properties.
\<close>

datatype js_any = Nullish | Obj "(string \<times> string) list"

record source =
  src_content :: string
  src_metadata :: js_any
  src_similarity :: js_number

record chat_response =
  cr_response :: string
  cr_conversation_id :: string
  cr_sources :: "source list"

record conversation =
  conv_id :: string
  conv_title :: string
  conv_created_at :: string
  conv_updated_at :: string
  conv_message_count :: nat

record conversation_message =
  cmsg_timestamp :: string
  cmsg_user_message :: string
  cmsg_bot_response :: string
  cmsg_sources :: "js_any list"

record conversation_detail =
  cd_id :: string
  cd_title :: string
  cd_created_at :: string
  cd_updated_at :: string
  cd_messages :: "conversation_message list"

record system_stats =
  total_chunks :: nat
  unique_files :: nat
  file_types :: "(string \<times> nat) list"
  embedding_model :: string
  vector_db_path :: string

record ingestion_status =
  is_status :: string
  is_progress :: real
  is_message :: string

record health =
  h_status :: string
  h_service :: string

text \<open>
  Every method returns the requests it issued together with its outcome. The
  constructor stores \<open>API_BASE_URL\<close> in \<^verbatim>\<open>this.baseUrl\<close>.
\<close>

definition http_error :: "'a http_response \<Rightarrow> js_error" where
  "http_error response = Error (''HTTP error! status: '' @ toString (status response))"

definition ApiService_sendMessage ::
  "chat_response fetch \<Rightarrow> chat_message \<Rightarrow> http_request list \<times> (js_error + chat_response)" where
  "ApiService_sendMessage fetch message =
     (let request = \<lparr>req_url = API_BASE_URL @ ''/chat'', req_method = ''POST'',
            req_headers = [(''Content-Type'', ''application/json'')],
            req_body = Some (JSON_stringify
              [(''message'', Some (JStr (cm_message message))),
               (''conversation_id'', map_option JStr (cm_conversation_id message))])\<rparr>
      in ([request],
          case fetch request of
            Rejected e \<Rightarrow> Inl e
          | Resolved response \<Rightarrow>
              if \<not> ok response then Inl (http_error response)
              else response_json response))"

definition ApiService_getConversations ::
  "conversation list fetch \<Rightarrow> http_request list \<times> (js_error + conversation list)" where
  "ApiService_getConversations fetch =
     (let request = \<lparr>req_url = API_BASE_URL @ ''/conversations'', req_method = ''GET'',
            req_headers = [], req_body = None\<rparr>
      in ([request],
          case fetch request of
            Rejected e \<Rightarrow> Inl e
          | Resolved response \<Rightarrow>
              if \<not> ok response then Inl (http_error response)
              else response_json response))"

definition ApiService_getConversation ::
  "conversation_detail fetch \<Rightarrow> string \<Rightarrow> http_request list \<times> (js_error + conversation_detail)" where
  "ApiService_getConversation fetch conversationId =
     (let request = \<lparr>req_url = API_BASE_URL @ ''/conversations/'' @ conversationId,
            req_method = ''GET'', req_headers = [], req_body = None\<rparr>
      in ([request],
          case fetch request of
            Rejected e \<Rightarrow> Inl e
          | Resolved response \<Rightarrow>
              if \<not> ok response then Inl (http_error response)
              else response_json response))"

definition ApiService_deleteConversation ::
  "'a fetch \<Rightarrow> string \<Rightarrow> http_request list \<times> (js_error + unit)" where
  "ApiService_deleteConversation fetch conversationId =
     (let request = \<lparr>req_url = API_BASE_URL @ ''/conversations/'' @ conversationId,
            req_method = ''DELETE'', req_headers = [], req_body = None\<rparr>
      in ([request],
          case fetch request of
            Rejected e \<Rightarrow> Inl e
          | Resolved response \<Rightarrow>
              if \<not> ok response then Inl (http_error response)
              else Inr ()))"

text \<open>
  \<^verbatim>\<open>triggerIngestion(path?: string, incremental: boolean = true)\<close>: an omitted
  argument is \<open>None\<close>; the default applies to an omitted \<^verbatim>\<open>incremental\<close>.
\<close>

definition ApiService_triggerIngestion ::
  "'a fetch \<Rightarrow> string option \<Rightarrow> bool option \<Rightarrow> http_request list \<times> (js_error + unit)" where
  "ApiService_triggerIngestion fetch path incremental_arg =
     (let incremental = (case incremental_arg of None \<Rightarrow> True | Some b \<Rightarrow> b);
          request = \<lparr>req_url = API_BASE_URL @ ''/ingest'', req_method = ''POST'',
            req_headers = [(''Content-Type'', ''application/json'')],
            req_body = Some (JSON_stringify
              [(''path'', map_option JStr path),
               (''incremental'', Some (JBool incremental))])\<rparr>
      in ([request],
          case fetch request of
            Rejected e \<Rightarrow> Inl e
          | Resolved response \<Rightarrow>
              if \<not> ok response then Inl (http_error response)
              else Inr ()))"

definition ApiService_getIngestionStatus ::
  "ingestion_status fetch \<Rightarrow> http_request list \<times> (js_error + ingestion_status)" where
  "ApiService_getIngestionStatus fetch =
     (let request = \<lparr>req_url = API_BASE_URL @ ''/ingest/status'', req_method = ''GET'',
            req_headers = [], req_body = None\<rparr>
      in ([request],
          case fetch request of
            Rejected e \<Rightarrow> Inl e
          | Resolved response \<Rightarrow>
              if \<not> ok response then Inl (http_error response)
              else response_json response))"

definition ApiService_getStats ::
  "system_stats fetch \<Rightarrow> http_request list \<times> (js_error + system_stats)" where
  "ApiService_getStats fetch =
     (let request = \<lparr>req_url = API_BASE_URL @ ''/stats'', req_method = ''GET'',
            req_headers = [], req_body = None\<rparr>
      in ([request],
          case fetch request of
            Rejected e \<Rightarrow> Inl e
          | Resolved response \<Rightarrow>
              if \<not> ok response then Inl (http_error response)
              else response_json response))"

definition ApiService_checkHealth ::
  "health fetch \<Rightarrow> http_request list \<times> (js_error + health)" where
  "ApiService_checkHealth fetch =
     (let request = \<lparr>req_url = API_BASE_URL @ ''/health'', req_method = ''GET'',
            req_headers = [], req_body = None\<rparr>
      in ([request],
          case fetch request of
            Rejected e \<Rightarrow> Inl e
          | Resolved response \<Rightarrow>
              if \<not> ok response then Inl (http_error response)
              else response_json response))"

section \<open>The chat screen (\<^verbatim>\<open>app/screens/ChatScreen.tsx\<close>)\<close>

record message =
  msg_id :: string
  msg_text :: string
  msg_isUser :: bool
  msg_timestamp :: nat
  msg_sources :: "source list option"

record snackbar_state =
  sb_visible :: bool
  sb_message :: string

text \<open>The component's \<^verbatim>\<open>useState\<close> cells.\<close>

record chat_screen =
  messages :: "message list"
  inputText :: string
  isLoading :: bool
  conversationId :: "string option"
  snackbar :: snackbar_state

text \<open>
  The clock readings one call of \<^verbatim>\<open>sendMessage\<close> takes, in milliseconds:
  \<^verbatim>\<open>Date.now()\<close> and \<^verbatim>\<open>new Date()\<close> for the user's message, and again for the
  bot's message once the reply is there.
\<close>

record send_clock =
  user_id_now :: nat
  user_timestamp :: nat
  bot_id_now :: nat
  bot_timestamp :: nat

text \<open>
  \<^verbatim>\<open>sendMessage\<close> from its call to the end of its \<^verbatim>\<open>finally\<close> block, given what
  \<^verbatim>\<open>fetch\<close> answers: the requests issued and the state all its setters leave.
  \<^verbatim>\<open>console.error\<close> is not part of the state.
\<close>

definition ChatScreen_sendMessage ::
  "chat_response fetch \<Rightarrow> send_clock \<Rightarrow> chat_screen \<Rightarrow> http_request list \<times> chat_screen" where
  "ChatScreen_sendMessage fetch clock st =
     (if trim (inputText st) = [] \<or> isLoading st then ([], st)
      else
        let userMessage = \<lparr>msg_id = toString (user_id_now clock),
              msg_text = trim (inputText st), msg_isUser = True,
              msg_timestamp = user_timestamp clock, msg_sources = None\<rparr>;
            st1 = st\<lparr>messages := messages st @ [userMessage], inputText := [],
              isLoading := True\<rparr>;
            (requests, outcome) = ApiService_sendMessage fetch
              \<lparr>cm_message = msg_text userMessage, cm_conversation_id = conversationId st\<rparr>;
            st2 = (case outcome of
                Inr response \<Rightarrow>
                  let botMessage = \<lparr>msg_id = toString (bot_id_now clock + 1),
                        msg_text = cr_response response, msg_isUser = False,
                        msg_timestamp = bot_timestamp clock,
                        msg_sources = Some (cr_sources response)\<rparr>
                  in st1\<lparr>conversationId := Some (cr_conversation_id response),
                       messages := messages st1 @ [botMessage]\<rparr>
              | Inl error \<Rightarrow>
                  st1\<lparr>snackbar := \<lparr>sb_visible = True, sb_message =
                    ''Failed to send message. Make sure the backend is running.''\<rparr>\<rparr>)
        in (requests, st2\<lparr>isLoading := False\<rparr>))"








section \<open>The web client (\<^verbatim>\<open>web/src/App.js\<close>)\<close>

text \<open>
  \<^verbatim>\<open>axios\<close> resolves with the parsed body of a 2xx response and rejects
  otherwise; a rejection carries the body of the failed response when there was
  one. The headers the library adds by itself are not written in the request.
\<close>

datatype 'd axios_result = AxiosError "'d option" | AxiosResponse 'd

type_synonym 'd axios = "http_request \<Rightarrow> 'd axios_result"

text \<open>
  The body of \<^verbatim>\<open>POST /chat\<close> as \<^verbatim>\<open>App.js\<close> reads it: \<^verbatim>\<open>sources\<close> and
  \<^verbatim>\<open>conversation_id\<close> may be missing.
\<close>

record 'src web_chat_data =
  wd_response :: string
  wd_sources :: "'src list option"
  wd_conversation_id :: "string option"

text \<open>A chat entry; \<open>wm_timestamp\<close> is the reading that \<^verbatim>\<open>toISOString\<close> prints.\<close>

record 'src web_message =
  wm_type :: string
  wm_content :: string
  wm_sources :: "'src list option"
  wm_timestamp :: nat

record ('conv, 'src) app_state =
  app_conversations :: "'conv list"
  app_currentConversation :: "string option"
  app_messages :: "'src web_message list"
  app_inputMessage :: string
  app_loading :: bool
  app_connected :: bool

definition App_loadConversations ::
  "'conv list axios \<Rightarrow> ('conv, 'src) app_state \<Rightarrow> http_request list \<times> ('conv, 'src) app_state" where
  "App_loadConversations axios_get st =
     (let request = \<lparr>req_url = API_BASE_URL @ ''/conversations'', req_method = ''GET'',
            req_headers = [], req_body = None\<rparr>
      in ([request],
          case axios_get request of
            AxiosResponse data \<Rightarrow> st\<lparr>app_conversations := data\<rparr>
          | AxiosError _ \<Rightarrow> st))"

record web_clock =
  web_user_timestamp :: nat
  web_reply_timestamp :: nat

definition App_sendMessage ::
  "'src web_chat_data axios \<Rightarrow> 'conv list axios \<Rightarrow> web_clock \<Rightarrow> ('conv, 'src) app_state
     \<Rightarrow> http_request list \<times> ('conv, 'src) app_state" where
  "App_sendMessage axios_post axios_get clock st =
     (if trim (app_inputMessage st) = [] \<or> app_loading st then ([], st)
      else
        let userMessage = trim (app_inputMessage st);
            newUserMessage = \<lparr>wm_type = ''user'', wm_content = userMessage,
              wm_sources = None, wm_timestamp = web_user_timestamp clock\<rparr>;
            st1 = st\<lparr>app_inputMessage := [], app_loading := True,
              app_messages := app_messages st @ [newUserMessage]\<rparr>;
            request = \<lparr>req_url = API_BASE_URL @ ''/chat'', req_method = ''POST'',
              req_headers = [],
              req_body = Some (JSON_stringify
                [(''message'', Some (JStr userMessage)),
                 (''conversation_id'',
                  Some (case app_currentConversation st of None \<Rightarrow> JNull | Some c \<Rightarrow> JStr c))])\<rparr>
        in (case axios_post request of
              AxiosResponse data \<Rightarrow>
                let botMessage = \<lparr>wm_type = ''bot'', wm_content = wd_response data,
                      wm_sources = Some (case wd_sources data of None \<Rightarrow> [] | Some s \<Rightarrow> s),
                      wm_timestamp = web_reply_timestamp clock\<rparr>;
                    st2 = st1\<lparr>app_messages := app_messages st1 @ [botMessage]\<rparr>
                in (case wd_conversation_id data of
                      None \<Rightarrow> ([request], st2\<lparr>app_loading := False\<rparr>)
                    | Some c \<Rightarrow>
                        if c = [] then ([request], st2\<lparr>app_loading := False\<rparr>)
                        else
                          let (requests, st3) = App_loadConversations axios_get
                                (st2\<lparr>app_currentConversation := Some c\<rparr>)
                          in (request # requests, st3\<lparr>app_loading := False\<rparr>))
            | AxiosError _ \<Rightarrow>
                let errorMessage = \<lparr>wm_type = ''bot'', wm_content =
                      ''Sorry, there was an error processing your message. Please make sure the backend is running and try again.'',
                      wm_sources = None, wm_timestamp = web_reply_timestamp clock\<rparr>
                in ([request], st1\<lparr>app_messages := app_messages st1 @ [errorMessage],
                                   app_loading := False\<rparr>)))"


section \<open>The ingestion-and-retrieval core\<close>

text \<open>
  The Python backend (\<^verbatim>\<open>backend/\<close>: chunker, embedder, document tracker,
  vector index, ingestion pipeline, retriever, context assembler, statistics)
  is not among the source files; only its callers above are. Each definition of
  this section is written from the specification and says so.
\<close>

subsection \<open>Data model\<close>

text \<open>
  Modelled from the spec: the embedding vector of the backend's \<open>Chunk\<close> (section
  3), a fixed-length sequence of numbers; the components are real numbers.
\<close>

type_synonym vector = "real list"

text \<open>
  Modelled from the spec: the chunk ID of the backend's \<open>Chunk\<close> (section 3), the
  pair of the owning document's path and the sequence index.
\<close>

type_synonym chunk_id = "string \<times> nat"

text \<open>
  Modelled from the spec: the backend's \<open>VectorIndexEntry\<close> (section 3), which
  pairs the chunk ID with the embedding vector, the chunk text and the metadata
  (filename, file type). The extraction timestamp of the metadata is left out.
\<close>

record index_entry =
  e_id :: chunk_id
  e_vector :: vector
  e_text :: string
  e_filename :: string
  e_file_type :: string

text \<open>
  Modelled from the spec: the backend's \<open>SourceDocument\<close> as a directory walk
  finds it (sections 3 and 4.1): path, bytes, modification time and file type.
  The fingerprint is the pair of content and modification time itself, so two
  different files never share one.
\<close>

record source_document =
  d_path :: string
  d_bytes :: string
  d_mtime :: nat
  d_type :: string

text \<open>
  Modelled from the spec: the fingerprint of the backend's document tracker
  (section 4.1), content together with modification time.
\<close>

type_synonym fingerprint = "string \<times> nat"

text \<open>
  Modelled from the spec: how the backend's document tracker takes the
  fingerprint of a walked document (section 4.1).
\<close>

definition fingerprint_of :: "source_document \<Rightarrow> fingerprint" where
  "fingerprint_of d = (d_bytes d, d_mtime d)"

text \<open>
  Modelled from the spec: the external collaborators and the two pure
  components whose algorithm the specification leaves open (sections 4.2, 4.3
  and 6): text extraction (\<open>None\<close> is an \<open>ExtractionFailure\<close>), the chunker's
  \<open>split\<close>, and the embedder's \<open>embed\<close> for one text with the identifier of
  its model.
\<close>

record collaborators =
  extract_text :: "source_document \<Rightarrow> string option"
  split :: "string \<Rightarrow> string list"
  embed :: "string \<Rightarrow> vector"
  model_identifier :: string

text \<open>
  Modelled from the spec: the embedder's \<open>embed_query\<close> (section 4.3), the
  identical transformation applied to the query text.
\<close>

definition embed_query :: "collaborators \<Rightarrow> string \<Rightarrow> vector" where
  "embed_query c text = embed c text"

subsection \<open>Vector index\<close>

text \<open>
  Modelled from the spec: the vector index's \<open>upsert\<close> (section 4.4), which
  inserts or replaces entries by chunk ID. The index is the list of its live
  entries; an entry whose ID is there is replaced in place, a new one is put at
  the end.
\<close>

fun upsert_entry :: "index_entry \<Rightarrow> index_entry list \<Rightarrow> index_entry list" where
  "upsert_entry e [] = [e]"
| "upsert_entry e (x # xs) = (if e_id x = e_id e then e # xs else x # upsert_entry e xs)"

text \<open>
  Modelled from the spec: the vector index's \<open>upsert\<close> of a batch (section 4.4),
  entry after entry.
\<close>

definition upsert :: "index_entry list \<Rightarrow> index_entry list \<Rightarrow> index_entry list" where
  "upsert new_entries idx = fold upsert_entry new_entries idx"

text \<open>
  Modelled from the spec: the vector index's \<open>delete\<close> and
  \<open>delete_by_document\<close> (section 4.4); an absent ID is a no-op.
\<close>

definition delete_ids :: "chunk_id list \<Rightarrow> index_entry list \<Rightarrow> index_entry list" where
  "delete_ids chunk_ids idx = filter (\<lambda>e. e_id e \<notin> set chunk_ids) idx"

text \<open>
  Modelled from the spec: the vector index's \<open>delete_by_document\<close> (section
  4.4), which removes every entry whose chunk ID names the document.
\<close>

definition delete_by_document :: "string \<Rightarrow> index_entry list \<Rightarrow> index_entry list" where
  "delete_by_document document_id idx = filter (\<lambda>e. fst (e_id e) \<noteq> document_id) idx"

text \<open>
  Modelled from the spec: the similarity of the vector index's \<open>search\<close>
  (section 4.4), the cosine of the angle between two vectors.
\<close>

definition dot :: "vector \<Rightarrow> vector \<Rightarrow> real" where
  "dot a b = sum_list (map (\<lambda>(x, y). x * y) (zip a b))"

text \<open>
  Modelled from the spec: the cosine similarity of the vector index's
  \<open>search\<close> (section 4.4), the inner product over the product of the norms.
\<close>

definition cosine_similarity :: "vector \<Rightarrow> vector \<Rightarrow> real" where
  "cosine_similarity a b = dot a b / (sqrt (dot a a) * sqrt (dot b b))"

text \<open>
  Modelled from the spec: the vector index's \<open>search\<close> (section 4.4). The
  entries that pass the optional filter are scored, ranked by falling score with
  ties in rising chunk ID, and cut to \<open>k\<close> results.
\<close>

definition search ::
  "vector \<Rightarrow> nat \<Rightarrow> (index_entry \<Rightarrow> bool) option \<Rightarrow> index_entry list
     \<Rightarrow> (chunk_id \<times> real) list" where
  "search query_vector k filters idx =
     take k (sort_key (\<lambda>(i, score). (- score, i))
       (map (\<lambda>e. (e_id e, cosine_similarity query_vector (e_vector e)))
         (case filters of None \<Rightarrow> idx | Some keep \<Rightarrow> filter keep idx)))"

text \<open>
  Modelled from the spec: the order of a ranking that the vector index's
  \<open>search\<close> promises (section 4.4). A result stands before another when its
  score is higher, or the scores are equal and its chunk ID is not the larger.
\<close>

definition ranks_before :: "chunk_id \<times> real \<Rightarrow> chunk_id \<times> real \<Rightarrow> bool" where
  "ranks_before a b \<longleftrightarrow> snd b < snd a \<or> (snd a = snd b \<and> fst a \<le> fst b)"

subsection \<open>Document tracker\<close>

text \<open>
  Modelled from the spec: the document tracker's fingerprint table and its
  \<open>scan\<close> (section 4.1). A walked document is added when its path is not in
  the table, modified when the stored fingerprint differs; a tracked path that
  the walk did not find is removed. A full rebuild treats every walked document
  as added.
\<close>

type_synonym tracker_table = "(string \<times> fingerprint) list"

text \<open>
  Modelled from the spec: the three partitions that the document tracker's
  \<open>scan\<close> returns (section 4.1).
\<close>

record scan_result =
  added :: "source_document list"
  modified :: "source_document list"
  removed :: "string list"

text \<open>
  Modelled from the spec: the document tracker's \<open>scan\<close> (section 4.1) of a
  directory listing against the stored table.
\<close>

definition scan :: "bool \<Rightarrow> source_document list \<Rightarrow> tracker_table \<Rightarrow> scan_result" where
  "scan full_rebuild listing table =
     \<lparr>added = filter (\<lambda>d. full_rebuild \<or> map_of table (d_path d) = None) listing,
      modified = filter (\<lambda>d. \<not> full_rebuild \<and>
          (case map_of table (d_path d) of
             None \<Rightarrow> False
           | Some stored \<Rightarrow> stored \<noteq> fingerprint_of d)) listing,
      removed = filter (\<lambda>p. p \<notin> set (map d_path listing)) (map fst table)\<rparr>"

subsection \<open>Ingestion pipeline\<close>

text \<open>
  Modelled from the spec: the state that the ingestion pipeline owns (sections 3
  and 4.5), the tracker's table and the index.
\<close>

record pipeline_state =
  tracker :: tracker_table
  index :: "index_entry list"

text \<open>
  Modelled from the spec: step 3 of the ingestion pipeline for the chunks of one
  document (section 4.5): the chunker's output, numbered from 0 and embedded.
\<close>

definition chunk_entries :: "collaborators \<Rightarrow> source_document \<Rightarrow> string \<Rightarrow> index_entry list" where
  "chunk_entries c d text =
     map (\<lambda>(i, chunk_text).
           \<lparr>e_id = (d_path d, i), e_vector = embed c chunk_text, e_text = chunk_text,
            e_filename = d_path d, e_file_type = d_type d\<rparr>)
       (enumerate 0 (split c text))"

text \<open>
  Modelled from the spec: step 1 of the ingestion pipeline (section 4.5), for a
  removed document: \<open>delete_by_document\<close>, and its tracker entry is dropped.
\<close>

definition remove_document :: "string \<Rightarrow> pipeline_state \<Rightarrow> pipeline_state" where
  "remove_document p st =
     st\<lparr>index := delete_by_document p (index st), tracker := AList.delete p (tracker st)\<rparr>"

text \<open>
  Modelled from the spec: step 2 of the ingestion pipeline (section 4.5), for a
  modified document: \<open>delete_by_document\<close> for its old chunks.
\<close>

definition retire_chunks :: "source_document \<Rightarrow> pipeline_state \<Rightarrow> pipeline_state" where
  "retire_chunks d st = st\<lparr>index := delete_by_document (d_path d) (index st)\<rparr>"

text \<open>
  Modelled from the spec: step 3 of the ingestion pipeline (section 4.5), for an
  added or modified document. A document whose extraction fails is skipped and
  left untracked; otherwise its entries are upserted and the tracker takes its
  fingerprint.
\<close>

definition process_document ::
  "collaborators \<Rightarrow> source_document \<Rightarrow> pipeline_state \<Rightarrow> pipeline_state" where
  "process_document c d st =
     (case extract_text c d of
        None \<Rightarrow> st\<lparr>tracker := AList.delete (d_path d) (tracker st)\<rparr>
      | Some text \<Rightarrow>
          st\<lparr>index := upsert (chunk_entries c d text) (index st),
             tracker := AList.update (d_path d) (fingerprint_of d) (tracker st)\<rparr>)"

text \<open>
  Modelled from the spec: one pass of the ingestion pipeline (section 4.5) over
  a directory listing, incremental or as a full rebuild, whose index writes
  succeed. It returns the new state and the paths of the documents that failed.
\<close>

definition run_pass ::
  "collaborators \<Rightarrow> bool \<Rightarrow> source_document list \<Rightarrow> pipeline_state
     \<Rightarrow> pipeline_state \<times> string list" where
  "run_pass c full_rebuild listing st =
     (let changes = scan full_rebuild listing (tracker st);
          st1 = fold remove_document (removed changes) st;
          st2 = fold retire_chunks (modified changes) st1;
          st3 = fold (process_document c) (added changes @ modified changes) st2
      in (st3, map d_path
            (filter (\<lambda>d. extract_text c d = None) (added changes @ modified changes))))"

subsection \<open>Retriever\<close>

text \<open>
  Modelled from the spec: the retriever's \<open>retrieve\<close> and its
  \<open>RetrievalResult\<close> (sections 3 and 4.6). The query is embedded, the index
  searched, each hit paired with its chunk, and a hit below the optional
  minimum similarity discarded. The specification gives the conversation
  context no part in it.
\<close>

type_synonym retrieval_result = "(index_entry \<times> real) list"

text \<open>
  Modelled from the spec: the retriever's \<open>retrieve\<close> (section 4.6).
\<close>

definition retrieve ::
  "collaborators \<Rightarrow> index_entry list \<Rightarrow> real option \<Rightarrow> string \<Rightarrow> nat \<Rightarrow> string list
     \<Rightarrow> retrieval_result" where
  "retrieve c idx min_similarity query_text k conversation_context =
     concat (map (\<lambda>(i, score).
         case find (\<lambda>e. e_id e = i) idx of
           None \<Rightarrow> []
         | Some e \<Rightarrow>
             (case min_similarity of
                None \<Rightarrow> [(e, score)]
              | Some threshold \<Rightarrow> if score < threshold then [] else [(e, score)]))
       (search (embed_query c query_text) k None idx))"

subsection \<open>Context assembler\<close>

text \<open>
  Modelled from the spec: the fixed template of the context assembler (section
  4.7): a heading, every included chunk under a marker that names its file, the
  conversation history and the question. The specification fixes no wording;
  this one stands for it.
\<close>

definition render_chunk :: "index_entry \<times> real \<Rightarrow> string" where
  "render_chunk r =
     ''[source: '' @ e_filename (fst r) @ '']'' @ [CHR 10] @ e_text (fst r) @ [CHR 10]"

text \<open>
  Modelled from the spec: the whole prompt of the context assembler for the
  chunks it includes (section 4.7).
\<close>

definition assemble :: "string \<Rightarrow> string list \<Rightarrow> retrieval_result \<Rightarrow> string" where
  "assemble question conversation_history included =
     ''Answer the question from the notes below.'' @ [CHR 10]
     @ concat (map render_chunk included)
     @ concat (map (\<lambda>turn. turn @ [CHR 10]) conversation_history)
     @ ''Question: '' @ question"

text \<open>
  Modelled from the spec: the truncation of the context assembler (section 4.7).
  While the assembled prompt is over the budget and a chunk is left, the
  lowest-ranked chunk (the last one) is dropped.
\<close>

function fit_chunks ::
  "nat \<Rightarrow> string \<Rightarrow> string list \<Rightarrow> retrieval_result \<Rightarrow> retrieval_result" where
  "fit_chunks budget question conversation_history ranked =
     (if ranked = [] \<or> length (assemble question conversation_history ranked) \<le> budget
      then ranked
      else fit_chunks budget question conversation_history (butlast ranked))"
  by pat_completeness auto
termination
  by (relation "measure (\<lambda>(budget, question, conversation_history, ranked). length ranked)")
    auto

declare fit_chunks.simps [simp del]

text \<open>
  Modelled from the spec: the context assembler's \<open>build_prompt\<close> (section 4.7).
\<close>

definition build_prompt :: "nat \<Rightarrow> string \<Rightarrow> retrieval_result \<Rightarrow> string list \<Rightarrow> string" where
  "build_prompt budget question retrieval conversation_history =
     assemble question conversation_history
       (fit_chunks budget question conversation_history retrieval)"

text \<open>
  Modelled from the spec: the deduplication of the source list (section 4.7);
  the first of equal pairs stays, so the list keeps the ranking.
\<close>

definition dedup :: "'a list \<Rightarrow> 'a list" where
  "dedup xs = rev (remdups (rev xs))"

text \<open>
  Modelled from the spec: the structured answer of the context assembler
  (section 4.7): the answer text and the cited sources, each a filename with a
  similarity.
\<close>

record structured_answer =
  answer_text :: string
  sources :: "(string \<times> real) list"

text \<open>
  Modelled from the spec: the context assembler's \<open>parse_response\<close> (section
  4.7). It is handed the raw model output and the retrieval result of the
  turn, all candidates that retrieval returned. The sources are drawn from the
  chunks that the prompt of the turn included, which the assembler finds as
  \<open>build_prompt\<close> does, from its configured maximum size, the question and
  the conversation history; they are deduplicated as (filename, similarity)
  pairs.
\<close>

definition parse_response ::
  "nat \<Rightarrow> string \<Rightarrow> string list \<Rightarrow> string \<Rightarrow> retrieval_result \<Rightarrow> structured_answer" where
  "parse_response budget question conversation_history raw_model_output retrieval =
     \<lparr>answer_text = raw_model_output,
      sources = dedup (map (\<lambda>r. (e_filename (fst r), snd r))
        (fit_chunks budget question conversation_history retrieval))\<rparr>"

subsection \<open>Statistics\<close>



subsection \<open>An example configuration\<close>

text \<open>
  Collaborators, directory listings, a pipeline state that still tracks a
  deleted note, index entries and a retrieval result on which the model is
  evaluated: extraction fails on PDF files, the chunker cuts a text after four
  characters, and the embedding of a text is its length beside a constant.
\<close>

definition example_collaborators :: collaborators where
  "example_collaborators =
     \<lparr>extract_text = (\<lambda>d. if d_type d = ''pdf'' then None else Some (d_bytes d)),
      split = (\<lambda>t. if t = [] then [] else if length t \<le> 4 then [t] else [take 4 t, drop 4 t]),
      embed = (\<lambda>t. [real (length t), 1]),
      model_identifier = ''all-MiniLM-L6-v2''\<rparr>"

definition example_listing :: "source_document list" where
  "example_listing =
     [\<lparr>d_path = ''/notes/a.md'', d_bytes = ''yaks are hairy'', d_mtime = 1, d_type = ''md''\<rparr>,
      \<lparr>d_path = ''/notes/b.md'', d_bytes = ''goat'', d_mtime = 1, d_type = ''md''\<rparr>,
      \<lparr>d_path = ''/notes/c.md'', d_bytes = ''oxen low'', d_mtime = 2, d_type = ''md''\<rparr>]"


definition example_pdf_listing :: "source_document list" where
  "example_pdf_listing =
     \<lparr>d_path = ''/notes/d.pdf'', d_bytes = ''%PDF'', d_mtime = 3, d_type = ''pdf''\<rparr>
       # example_listing"

definition example_stale_state :: pipeline_state where
  "example_stale_state = \<lparr>tracker = [(''/notes/old.md'', (''gone'', 0))], index = []\<rparr>"

definition example_entries :: "index_entry list" where
  "example_entries =
     [\<lparr>e_id = (''/notes/b.md'', 0), e_vector = [1, 0], e_text = ''goat'',
       e_filename = ''/notes/b.md'', e_file_type = ''md''\<rparr>,
      \<lparr>e_id = (''/notes/a.md'', 0), e_vector = [3, 4], e_text = ''yaks'',
       e_filename = ''/notes/a.md'', e_file_type = ''md''\<rparr>,
      \<lparr>e_id = (''/notes/c.md'', 0), e_vector = [0, 1], e_text = ''oxen'',
       e_filename = ''/notes/c.md'', e_file_type = ''md''\<rparr>]"

definition example_retrieval :: retrieval_result where
  "example_retrieval =
     [(\<lparr>e_id = (''/notes/a.md'', 0), e_vector = [3, 4], e_text = ''yaks'',
        e_filename = ''/notes/a.md'', e_file_type = ''md''\<rparr>, 1),
      (\<lparr>e_id = (''/notes/c.md'', 0), e_vector = [0, 1], e_text = replicate 200 CHR ''x'',
        e_filename = ''/notes/c.md'', e_file_type = ''md''\<rparr>, 4 / 5)]"

section \<open>Properties of the API client\<close>

subsection \<open>Helper facts\<close>

lemma dropWhile_all_iff: "(\<forall>x\<in>set (dropWhile P s). P x) \<longleftrightarrow> (\<forall>x\<in>set s. P x)"
proof
  assume a: "\<forall>x\<in>set (dropWhile P s). P x"
  have "dropWhile P s = []"
  proof (rule ccontr)
    assume n: "dropWhile P s \<noteq> []"
    then have "\<not> P (hd (dropWhile P s))" by (rule hd_dropWhile)
    moreover from n have "hd (dropWhile P s) \<in> set (dropWhile P s)" by simp
    ultimately show False using a by blast
  qed
  then show "\<forall>x\<in>set s. P x" by (simp add: dropWhile_eq_Nil_conv)
next
  assume "\<forall>x\<in>set s. P x"
  then show "\<forall>x\<in>set (dropWhile P s). P x" by (meson set_dropWhileD)
qed

lemma trim_empty_iff: "trim s = [] \<longleftrightarrow> (\<forall>c\<in>set s. is_whitespace c)"
  by (simp add: trim_def dropWhile_eq_Nil_conv dropWhile_all_iff)

lemma sendMessage_outcome:
  assumes "\<forall>q\<in>set (fst (ApiService_sendMessage fetch m)). fetch q = Resolved r"
  shows "snd (ApiService_sendMessage fetch m) =
     (if \<not> ok r then Inl (Error (''HTTP error! status: '' @ toString (status r)))
      else case json r of None \<Rightarrow> Inl (SyntaxError ''JSON Parse error'') | Some v \<Rightarrow> Inr v)"
  using assms by (simp add: ApiService_sendMessage_def Let_def http_error_def response_json_def)

lemma getConversations_outcome:
  assumes "\<forall>q\<in>set (fst (ApiService_getConversations fetch)). fetch q = Resolved r"
  shows "snd (ApiService_getConversations fetch) =
     (if \<not> ok r then Inl (Error (''HTTP error! status: '' @ toString (status r)))
      else case json r of None \<Rightarrow> Inl (SyntaxError ''JSON Parse error'') | Some v \<Rightarrow> Inr v)"
  using assms by (simp add: ApiService_getConversations_def Let_def http_error_def response_json_def)

lemma getConversation_outcome:
  assumes "\<forall>q\<in>set (fst (ApiService_getConversation fetch c)). fetch q = Resolved r"
  shows "snd (ApiService_getConversation fetch c) =
     (if \<not> ok r then Inl (Error (''HTTP error! status: '' @ toString (status r)))
      else case json r of None \<Rightarrow> Inl (SyntaxError ''JSON Parse error'') | Some v \<Rightarrow> Inr v)"
  using assms by (simp add: ApiService_getConversation_def Let_def http_error_def response_json_def)

lemma deleteConversation_outcome:
  assumes "\<forall>q\<in>set (fst (ApiService_deleteConversation fetch c)). fetch q = Resolved r"
  shows "snd (ApiService_deleteConversation fetch c) =
     (if \<not> ok r then Inl (Error (''HTTP error! status: '' @ toString (status r)))
      else Inr ())"
  using assms by (simp add: ApiService_deleteConversation_def Let_def http_error_def)

lemma triggerIngestion_outcome:
  assumes "\<forall>q\<in>set (fst (ApiService_triggerIngestion fetch p i)). fetch q = Resolved r"
  shows "snd (ApiService_triggerIngestion fetch p i) =
     (if \<not> ok r then Inl (Error (''HTTP error! status: '' @ toString (status r)))
      else Inr ())"
  using assms by (simp add: ApiService_triggerIngestion_def Let_def http_error_def)

lemma getIngestionStatus_outcome:
  assumes "\<forall>q\<in>set (fst (ApiService_getIngestionStatus fetch)). fetch q = Resolved r"
  shows "snd (ApiService_getIngestionStatus fetch) =
     (if \<not> ok r then Inl (Error (''HTTP error! status: '' @ toString (status r)))
      else case json r of None \<Rightarrow> Inl (SyntaxError ''JSON Parse error'') | Some v \<Rightarrow> Inr v)"
  using assms by (simp add: ApiService_getIngestionStatus_def Let_def http_error_def response_json_def)

lemma getStats_outcome:
  assumes "\<forall>q\<in>set (fst (ApiService_getStats fetch)). fetch q = Resolved r"
  shows "snd (ApiService_getStats fetch) =
     (if \<not> ok r then Inl (Error (''HTTP error! status: '' @ toString (status r)))
      else case json r of None \<Rightarrow> Inl (SyntaxError ''JSON Parse error'') | Some v \<Rightarrow> Inr v)"
  using assms by (simp add: ApiService_getStats_def Let_def http_error_def response_json_def)

lemma checkHealth_outcome:
  assumes "\<forall>q\<in>set (fst (ApiService_checkHealth fetch)). fetch q = Resolved r"
  shows "snd (ApiService_checkHealth fetch) =
     (if \<not> ok r then Inl (Error (''HTTP error! status: '' @ toString (status r)))
      else case json r of None \<Rightarrow> Inl (SyntaxError ''JSON Parse error'') | Some v \<Rightarrow> Inr v)"
  using assms by (simp add: ApiService_checkHealth_def Let_def http_error_def response_json_def)




subsection \<open>Outcome of every method\<close>

text \<open>
  Claim C8, as the code has it. When \<^verbatim>\<open>fetch\<close> resolves with a response, every
  method of \<open>ApiService\<close> throws \<^verbatim>\<open>Error("HTTP error! status: N")\<close> if the
  response has \<open>ok = false\<close>. If \<open>ok = true\<close>, \<open>deleteConversation\<close> and
  \<open>triggerIngestion\<close> return unit, and the six other methods return what
  \<^verbatim>\<open>response.json()\<close> yields: the parsed body when the body is JSON, and a
  rejection when it is not.
\<close>

theorem ApiService_outcome_of_response:
  "((\<forall>q\<in>set (fst (ApiService_sendMessage fa m)). fa q = Resolved ra) \<longrightarrow>
      snd (ApiService_sendMessage fa m) =
        (if \<not> ok ra then Inl (Error (''HTTP error! status: '' @ toString (status ra)))
         else case json ra of None \<Rightarrow> Inl (SyntaxError ''JSON Parse error'')
              | Some v \<Rightarrow> Inr v)) \<and>
   ((\<forall>q\<in>set (fst (ApiService_getConversations fb)). fb q = Resolved rb) \<longrightarrow>
      snd (ApiService_getConversations fb) =
        (if \<not> ok rb then Inl (Error (''HTTP error! status: '' @ toString (status rb)))
         else case json rb of None \<Rightarrow> Inl (SyntaxError ''JSON Parse error'')
              | Some v \<Rightarrow> Inr v)) \<and>
   ((\<forall>q\<in>set (fst (ApiService_getConversation fc cc)). fc q = Resolved rc) \<longrightarrow>
      snd (ApiService_getConversation fc cc) =
        (if \<not> ok rc then Inl (Error (''HTTP error! status: '' @ toString (status rc)))
         else case json rc of None \<Rightarrow> Inl (SyntaxError ''JSON Parse error'')
              | Some v \<Rightarrow> Inr v)) \<and>
   ((\<forall>q\<in>set (fst (ApiService_deleteConversation fd cd)). fd q = Resolved rd) \<longrightarrow>
      snd (ApiService_deleteConversation fd cd) =
        (if \<not> ok rd then Inl (Error (''HTTP error! status: '' @ toString (status rd)))
         else Inr ())) \<and>
   ((\<forall>q\<in>set (fst (ApiService_triggerIngestion fe pe ie)). fe q = Resolved re) \<longrightarrow>
      snd (ApiService_triggerIngestion fe pe ie) =
        (if \<not> ok re then Inl (Error (''HTTP error! status: '' @ toString (status re)))
         else Inr ())) \<and>
   ((\<forall>q\<in>set (fst (ApiService_getIngestionStatus ff)). ff q = Resolved rf) \<longrightarrow>
      snd (ApiService_getIngestionStatus ff) =
        (if \<not> ok rf then Inl (Error (''HTTP error! status: '' @ toString (status rf)))
         else case json rf of None \<Rightarrow> Inl (SyntaxError ''JSON Parse error'')
              | Some v \<Rightarrow> Inr v)) \<and>
   ((\<forall>q\<in>set (fst (ApiService_getStats fg)). fg q = Resolved rg) \<longrightarrow>
      snd (ApiService_getStats fg) =
        (if \<not> ok rg then Inl (Error (''HTTP error! status: '' @ toString (status rg)))
         else case json rg of None \<Rightarrow> Inl (SyntaxError ''JSON Parse error'')
              | Some v \<Rightarrow> Inr v)) \<and>
   ((\<forall>q\<in>set (fst (ApiService_checkHealth fh)). fh q = Resolved rh) \<longrightarrow>
      snd (ApiService_checkHealth fh) =
        (if \<not> ok rh then Inl (Error (''HTTP error! status: '' @ toString (status rh)))
         else case json rh of None \<Rightarrow> Inl (SyntaxError ''JSON Parse error'')
              | Some v \<Rightarrow> Inr v))"
  using sendMessage_outcome [of fa m ra] getConversations_outcome [of fb rb]
    getConversation_outcome [of fc cc rc] deleteConversation_outcome [of fd cd rd]
    triggerIngestion_outcome [of fe pe ie re] getIngestionStatus_outcome [of ff rf]
    getStats_outcome [of fg rg] checkHealth_outcome [of fh rh]
  by blast

theorem ApiService_outcome_of_response_witness:
  "snd (ApiService_sendMessage (\<lambda>_. Resolved \<lparr>ok = False, status = 500, json = None\<rparr>)
      \<lparr>cm_message = ''why yaks?'', cm_conversation_id = None\<rparr>)
     = Inl (Error ''HTTP error! status: 500'') \<and>
   snd (ApiService_getConversations (\<lambda>_. Resolved \<lparr>ok = True, status = 200, json = Some []\<rparr>))
     = Inr [] \<and>
   snd (ApiService_getConversation (\<lambda>_. Resolved \<lparr>ok = False, status = 404, json = None\<rparr>) ''c1'')
     = Inl (Error ''HTTP error! status: 404'') \<and>
   snd (ApiService_deleteConversation
      (\<lambda>_. Resolved \<lparr>ok = True, status = 200, json = (None :: unit option)\<rparr>) ''c1'')
     = Inr () \<and>
   snd (ApiService_triggerIngestion
      (\<lambda>_. Resolved \<lparr>ok = False, status = 503, json = (None :: unit option)\<rparr>) None None)
     = Inl (Error ''HTTP error! status: 503'') \<and>
   snd (ApiService_getIngestionStatus (\<lambda>_. Resolved \<lparr>ok = True, status = 200,
      json = Some \<lparr>is_status = ''idle'', is_progress = 0, is_message = ''''\<rparr>\<rparr>))
     = Inr \<lparr>is_status = ''idle'', is_progress = 0, is_message = ''''\<rparr> \<and>
   snd (ApiService_getStats (\<lambda>_. Resolved \<lparr>ok = True, status = 200, json = None\<rparr>))
     = Inl (SyntaxError ''JSON Parse error'') \<and>
   snd (ApiService_checkHealth (\<lambda>_. Resolved \<lparr>ok = True, status = 200,
      json = Some \<lparr>h_status = ''healthy'', h_service = ''yak-hole''\<rparr>\<rparr>))
     = Inr \<lparr>h_status = ''healthy'', h_service = ''yak-hole''\<rparr>"
  using ApiService_outcome_of_response [where
      fa = "\<lambda>_. Resolved \<lparr>ok = False, status = 500, json = None\<rparr>"
      and m = "\<lparr>cm_message = ''why yaks?'', cm_conversation_id = None\<rparr>"
      and ra = "\<lparr>ok = False, status = 500, json = None\<rparr>"
      and fb = "\<lambda>_. Resolved \<lparr>ok = True, status = 200, json = Some []\<rparr>"
      and rb = "\<lparr>ok = True, status = 200, json = Some []\<rparr>"
      and fc = "\<lambda>_. Resolved \<lparr>ok = False, status = 404, json = None\<rparr>"
      and cc = "''c1''"
      and rc = "\<lparr>ok = False, status = 404, json = None\<rparr>"
      and fd = "\<lambda>_. Resolved \<lparr>ok = True, status = 200, json = (None :: unit option)\<rparr>"
      and cd = "''c1''"
      and rd = "\<lparr>ok = True, status = 200, json = (None :: unit option)\<rparr>"
      and fe = "\<lambda>_. Resolved \<lparr>ok = False, status = 503, json = (None :: unit option)\<rparr>"
      and pe = None and ie = None
      and re = "\<lparr>ok = False, status = 503, json = (None :: unit option)\<rparr>"
      and ff = "\<lambda>_. Resolved \<lparr>ok = True, status = 200,
        json = Some \<lparr>is_status = ''idle'', is_progress = 0, is_message = ''''\<rparr>\<rparr>"
      and rf = "\<lparr>ok = True, status = 200,
        json = Some \<lparr>is_status = ''idle'', is_progress = 0, is_message = ''''\<rparr>\<rparr>"
      and fg = "\<lambda>_. Resolved \<lparr>ok = True, status = 200, json = None\<rparr>"
      and rg = "\<lparr>ok = True, status = 200, json = None\<rparr>"
      and fh = "\<lambda>_. Resolved \<lparr>ok = True, status = 200,
        json = Some \<lparr>h_status = ''healthy'', h_service = ''yak-hole''\<rparr>\<rparr>"
      and rh = "\<lparr>ok = True, status = 200,
        json = Some \<lparr>h_status = ''healthy'', h_service = ''yak-hole''\<rparr>\<rparr>"]
  by (simp add: toString.simps)

text \<open>
  The claim as first stated (a method throws only when \<open>ok = false\<close>) fails on
  a response with \<open>ok = true\<close> whose body is not JSON: \<open>sendMessage\<close> rejects.
\<close>

theorem ApiService_ok_response_throws_counterexample:
  "snd (ApiService_sendMessage (\<lambda>_. Resolved \<lparr>ok = True, status = 200, json = None\<rparr>)
      \<lparr>cm_message = ''why yaks?'', cm_conversation_id = None\<rparr>)
     = Inl (SyntaxError ''JSON Parse error'')"
  by (simp add: ApiService_sendMessage_def Let_def response_json_def)

subsection \<open>The default of \<open>triggerIngestion\<close>\<close>

text \<open>
  Claim C10. When \<^verbatim>\<open>incremental\<close> is omitted, the body posted to
  \<^verbatim>\<open>/ingest\<close> has \<^verbatim>\<open>incremental\<close> set to true, as if \<^verbatim>\<open>true\<close> had been
  passed; a given \<^verbatim>\<open>path\<close> is in the body unchanged, and an omitted one is
  absent from it.
\<close>

theorem triggerIngestion_default_incremental:
  "fst (ApiService_triggerIngestion fetch None None) =
     [\<lparr>req_url = ''http://localhost:8000/ingest'', req_method = ''POST'',
       req_headers = [(''Content-Type'', ''application/json'')],
       req_body = Some [(''incremental'', JBool True)]\<rparr>] \<and>
   fst (ApiService_triggerIngestion fetch (Some p) None) =
     [\<lparr>req_url = ''http://localhost:8000/ingest'', req_method = ''POST'',
       req_headers = [(''Content-Type'', ''application/json'')],
       req_body = Some [(''path'', JStr p), (''incremental'', JBool True)]\<rparr>] \<and>
   ApiService_triggerIngestion fetch path None = ApiService_triggerIngestion fetch path (Some True)"
  by (simp add: ApiService_triggerIngestion_def Let_def JSON_stringify_def API_BASE_URL_def)

theorem triggerIngestion_default_incremental_witness:
  "fst (ApiService_triggerIngestion
      (\<lambda>request. Resolved \<lparr>ok = True, status = 200, json = (None :: unit option)\<rparr>)
      (Some ''/notes/inbox'') None) =
     [\<lparr>req_url = ''http://localhost:8000/ingest'', req_method = ''POST'',
       req_headers = [(''Content-Type'', ''application/json'')],
       req_body = Some [(''path'', JStr ''/notes/inbox''), (''incremental'', JBool True)]\<rparr>]"
  using triggerIngestion_default_incremental [of
      "\<lambda>request. Resolved \<lparr>ok = True, status = 200, json = (None :: unit option)\<rparr>"
      "''/notes/inbox''" None]
  by simp

section \<open>Properties of the chat handlers\<close>

subsection \<open>The guard of \<open>sendMessage\<close>\<close>

text \<open>
  Claim C9. A call of \<open>sendMessage\<close> while the input is empty or consists of
  white space only, or while \<open>loading\<close> is true, issues no HTTP request and
  leaves the whole state (message list, conversation ID and input text with it)
  as it was. This holds in \<^verbatim>\<open>ChatScreen.tsx\<close> and in \<^verbatim>\<open>App.js\<close>.
\<close>

theorem sendMessage_guard_no_effect:
  "((\<forall>c\<in>set (inputText st). is_whitespace c) \<or> isLoading st \<longrightarrow>
      ChatScreen_sendMessage fetch clock st = ([], st)) \<and>
   ((\<forall>c\<in>set (app_inputMessage ast). is_whitespace c) \<or> app_loading ast \<longrightarrow>
      App_sendMessage axios_post axios_get wclock ast = ([], ast))"
  by (simp add: ChatScreen_sendMessage_def App_sendMessage_def trim_empty_iff)

theorem sendMessage_guard_no_effect_witness:
  "ChatScreen_sendMessage (\<lambda>_. Rejected (TypeError ''Network request failed''))
      \<lparr>user_id_now = 1000, user_timestamp = 1000, bot_id_now = 1020, bot_timestamp = 1020\<rparr>
      \<lparr>messages = [], inputText = '' '', isLoading = False, conversationId = None,
        snackbar = \<lparr>sb_visible = False, sb_message = ''''\<rparr>\<rparr>
    = ([], \<lparr>messages = [], inputText = '' '', isLoading = False, conversationId = None,
        snackbar = \<lparr>sb_visible = False, sb_message = ''''\<rparr>\<rparr>) \<and>
   App_sendMessage (\<lambda>_. AxiosError None) (\<lambda>_. AxiosError None)
      \<lparr>web_user_timestamp = 1000, web_reply_timestamp = 1020\<rparr>
      \<lparr>app_conversations = ([] :: unit list), app_currentConversation = None,
        app_messages = ([] :: unit web_message list), app_inputMessage = ''why yaks?'',
        app_loading = True, app_connected = True\<rparr>
    = ([], \<lparr>app_conversations = [], app_currentConversation = None,
        app_messages = [], app_inputMessage = ''why yaks?'',
        app_loading = True, app_connected = True\<rparr>)"
  using sendMessage_guard_no_effect [of
      "\<lparr>messages = [], inputText = '' '', isLoading = False, conversationId = None,
        snackbar = \<lparr>sb_visible = False, sb_message = ''''\<rparr>\<rparr>"
      "\<lambda>_. Rejected (TypeError ''Network request failed'')"
      "\<lparr>user_id_now = 1000, user_timestamp = 1000, bot_id_now = 1020, bot_timestamp = 1020\<rparr>"
      "\<lparr>app_conversations = ([] :: unit list), app_currentConversation = None,
        app_messages = ([] :: unit web_message list), app_inputMessage = ''why yaks?'',
        app_loading = True, app_connected = True\<rparr>"
      "\<lambda>_. AxiosError None" "\<lambda>_. AxiosError None"
      "\<lparr>web_user_timestamp = 1000, web_reply_timestamp = 1020\<rparr>"]
  by (simp add: is_whitespace_def)

subsection \<open>A failed turn\<close>

text \<open>
  Claim C1, as the code has it. When the chat request fails, the error branch
  shows a fixed text and no sources, whatever the failed response carried:
  \<^verbatim>\<open>ChatScreen.tsx\<close> appends the user's message only and opens the snackbar
  with its fixed message, \<^verbatim>\<open>App.js\<close> appends the user's message and a bot
  message with a fixed content and no \<^verbatim>\<open>sources\<close>; both end the loading state
  and keep the conversation.
\<close>

theorem failed_turn_fixed_error:
  "(trim (inputText st) \<noteq> [] \<and> \<not> isLoading st \<and>
    snd (ApiService_sendMessage fetch
      \<lparr>cm_message = trim (inputText st), cm_conversation_id = conversationId st\<rparr>) = Inl e \<longrightarrow>
    snd (ChatScreen_sendMessage fetch clock st) =
      st\<lparr>messages := messages st @
            [\<lparr>msg_id = toString (user_id_now clock), msg_text = trim (inputText st),
              msg_isUser = True, msg_timestamp = user_timestamp clock, msg_sources = None\<rparr>],
         inputText := [], isLoading := False,
         snackbar := \<lparr>sb_visible = True, sb_message =
           ''Failed to send message. Make sure the backend is running.''\<rparr>\<rparr>) \<and>
   (trim (app_inputMessage ast) \<noteq> [] \<and> \<not> app_loading ast \<and>
    (\<forall>q. axios_post q = AxiosError d) \<longrightarrow>
    snd (App_sendMessage axios_post axios_get wclock ast) =
      ast\<lparr>app_messages := app_messages ast @
            [\<lparr>wm_type = ''user'', wm_content = trim (app_inputMessage ast),
              wm_sources = None, wm_timestamp = web_user_timestamp wclock\<rparr>,
             \<lparr>wm_type = ''bot'', wm_content =
                ''Sorry, there was an error processing your message. Please make sure the backend is running and try again.'',
              wm_sources = None, wm_timestamp = web_reply_timestamp wclock\<rparr>],
         app_inputMessage := [], app_loading := False\<rparr>)"
  by (simp add: ChatScreen_sendMessage_def App_sendMessage_def Let_def split: prod.splits)

theorem failed_turn_fixed_error_witness:
  "snd (ChatScreen_sendMessage (\<lambda>_. Resolved \<lparr>ok = False, status = 500, json = None\<rparr>)
      \<lparr>user_id_now = 1000, user_timestamp = 1000, bot_id_now = 1020, bot_timestamp = 1020\<rparr>
      \<lparr>messages = [], inputText = ''why yaks?'', isLoading = False, conversationId = None,
        snackbar = \<lparr>sb_visible = False, sb_message = ''''\<rparr>\<rparr>)
    = \<lparr>messages = [\<lparr>msg_id = ''1000'', msg_text = ''why yaks?'', msg_isUser = True,
          msg_timestamp = 1000, msg_sources = None\<rparr>],
        inputText = '''', isLoading = False, conversationId = None,
        snackbar = \<lparr>sb_visible = True, sb_message =
          ''Failed to send message. Make sure the backend is running.''\<rparr>\<rparr> \<and>
   snd (App_sendMessage (\<lambda>_. AxiosError None) (\<lambda>_. AxiosError None)
      \<lparr>web_user_timestamp = 1000, web_reply_timestamp = 1020\<rparr>
      \<lparr>app_conversations = ([] :: unit list), app_currentConversation = None,
        app_messages = ([] :: unit web_message list), app_inputMessage = ''why yaks?'',
        app_loading = False, app_connected = True\<rparr>)
    = \<lparr>app_conversations = [], app_currentConversation = None,
        app_messages =
          [\<lparr>wm_type = ''user'', wm_content = ''why yaks?'', wm_sources = None,
            wm_timestamp = 1000\<rparr>,
           \<lparr>wm_type = ''bot'', wm_content =
              ''Sorry, there was an error processing your message. Please make sure the backend is running and try again.'',
            wm_sources = None, wm_timestamp = 1020\<rparr>],
        app_inputMessage = '''', app_loading = False, app_connected = True\<rparr>"
  using failed_turn_fixed_error [where
      st = "\<lparr>messages = [], inputText = ''why yaks?'', isLoading = False,
        conversationId = None, snackbar = \<lparr>sb_visible = False, sb_message = ''''\<rparr>\<rparr>"
      and fetch = "\<lambda>_. Resolved \<lparr>ok = False, status = 500, json = None\<rparr>"
      and e = "Error ''HTTP error! status: 500''"
      and clock = "\<lparr>user_id_now = 1000, user_timestamp = 1000, bot_id_now = 1020,
        bot_timestamp = 1020\<rparr>"
      and ast = "\<lparr>app_conversations = ([] :: unit list), app_currentConversation = None,
        app_messages = ([] :: unit web_message list), app_inputMessage = ''why yaks?'',
        app_loading = False, app_connected = True\<rparr>"
      and axios_post = "\<lambda>_. AxiosError None" and d = None
      and axios_get = "\<lambda>_. AxiosError None"
      and wclock = "\<lparr>web_user_timestamp = 1000, web_reply_timestamp = 1020\<rparr>"]
  by (simp add: trim_def is_whitespace_def ApiService_sendMessage_def Let_def http_error_def
      toString.simps)

text \<open>
  The claim as first stated fails: a failed response that carries a retrieved
  source leaves no message with sources on the screen, in either client.
\<close>

theorem failed_turn_shows_no_sources_counterexample:
  "map msg_sources (messages (snd (ChatScreen_sendMessage
      (\<lambda>_. Resolved \<lparr>ok = False, status = 500, json = Some
         \<lparr>cr_response = '''', cr_conversation_id = ''c1'',
           cr_sources = [\<lparr>src_content = ''Yaks are hairy.'',
             src_metadata = Obj [(''filename'', ''yaks.md'')], src_similarity = Double 1 0\<rparr>]\<rparr>\<rparr>)
      \<lparr>user_id_now = 1000, user_timestamp = 1000, bot_id_now = 1020, bot_timestamp = 1020\<rparr>
      \<lparr>messages = [], inputText = ''why yaks?'', isLoading = False, conversationId = None,
        snackbar = \<lparr>sb_visible = False, sb_message = ''''\<rparr>\<rparr>))) = [None] \<and>
   map wm_sources (app_messages (snd (App_sendMessage
      (\<lambda>_. AxiosError (Some \<lparr>wd_response = '''', wd_sources = Some [''yaks.md''],
         wd_conversation_id = Some ''c1''\<rparr>))
      (\<lambda>_. AxiosError None)
      \<lparr>web_user_timestamp = 1000, web_reply_timestamp = 1020\<rparr>
      \<lparr>app_conversations = ([] :: unit list), app_currentConversation = None,
        app_messages = [], app_inputMessage = ''why yaks?'',
        app_loading = False, app_connected = True\<rparr>))) = [None, None]"
  by (simp add: ChatScreen_sendMessage_def App_sendMessage_def ApiService_sendMessage_def
      trim_def is_whitespace_def Let_def)

subsection \<open>A successful turn\<close>





section \<open>Properties of the ingestion-and-retrieval core\<close>

subsection \<open>Helper facts\<close>

lemma dedup_set: "set (dedup xs) = set xs"
  by (simp add: dedup_def)

lemma dedup_distinct: "distinct (dedup xs)"
  by (simp add: dedup_def)

lemma fit_chunks_maximal:
  "\<exists>n\<le>length ranked. fit_chunks budget question history ranked = take n ranked \<and>
     (\<forall>m. n < m \<and> m \<le> length ranked \<longrightarrow>
        budget < length (assemble question history (take m ranked)))"
proof (induction budget question history ranked rule: fit_chunks.induct)
  case (1 budget question history ranked)
  show ?case
  proof (cases "ranked = [] \<or> length (assemble question history ranked) \<le> budget")
    case True
    then have "fit_chunks budget question history ranked = take (length ranked) ranked"
      by (simp add: fit_chunks.simps)
    then show ?thesis by (intro exI [of _ "length ranked"]) simp
  next
    case False
    with 1 obtain n where n: "n \<le> length (butlast ranked)"
      "fit_chunks budget question history (butlast ranked) = take n (butlast ranked)"
      and above: "\<forall>m. n < m \<and> m \<le> length (butlast ranked) \<longrightarrow>
        budget < length (assemble question history (take m (butlast ranked)))"
      by blast
    from n(1) have "take n (butlast ranked) = take n ranked"
      by (simp add: butlast_conv_take)
    with False n have fit: "fit_chunks budget question history ranked = take n ranked"
      by (simp add: fit_chunks.simps)
    from n(1) have le: "n \<le> length ranked" by simp
    have "budget < length (assemble question history (take m ranked))"
      if m: "n < m" "m \<le> length ranked" for m
    proof (cases "m = length ranked")
      case True
      with False show ?thesis by simp
    next
      case other: False
      with m have "m \<le> length (butlast ranked)" by simp
      moreover from this have "take m (butlast ranked) = take m ranked"
        by (simp add: butlast_conv_take)
      ultimately show ?thesis using above m(1) by fastforce
    qed
    with fit le show ?thesis by blast
  qed
qed

lemma fit_chunks_fits:
  "fit_chunks budget question history ranked = [] \<or>
   length (assemble question history (fit_chunks budget question history ranked)) \<le> budget"
proof (induction budget question history ranked rule: fit_chunks.induct)
  case (1 budget question history ranked)
  show ?case
  proof (cases "ranked = [] \<or> length (assemble question history ranked) \<le> budget")
    case True
    then show ?thesis by (auto simp: fit_chunks.simps)
  next
    case False
    with 1 show ?thesis by (simp add: fit_chunks.simps)
  qed
qed

lemma length_texts_le_assemble:
  "sum_list (map (\<lambda>r. length (e_text (fst r))) included)
     \<le> length (assemble question history included)"
proof -
  have "sum_list (map (\<lambda>r. length (e_text (fst r))) included)
      \<le> length (concat (map render_chunk included))"
    by (induction included) (auto simp: render_chunk_def)
  then show ?thesis by (simp add: assemble_def)
qed

lemma assemble_holds_text:
  assumes "r \<in> set included"
  shows "\<exists>before after. assemble question history included = before @ e_text (fst r) @ after"
proof -
  from assms obtain xs ys where "included = xs @ r # ys" by (meson split_list)
  then have "assemble question history included =
      (''Answer the question from the notes below.'' @ [CHR 10] @ concat (map render_chunk xs)
        @ ''[source: '' @ e_filename (fst r) @ '']'' @ [CHR 10])
      @ e_text (fst r)
      @ ([CHR 10] @ concat (map render_chunk ys)
        @ concat (map (\<lambda>turn. turn @ [CHR 10]) history) @ ''Question: '' @ question)"
    by (simp add: assemble_def render_chunk_def)
  then show ?thesis by blast
qed





lemma map_fst_enumerate_upt:
  "map (\<lambda>p. g (fst p)) (enumerate n xs) = map g [n..<n + length xs]"
proof (induction xs arbitrary: n)
  case Nil
  show ?case by simp
next
  case (Cons x xs)
  have "[n..<n + length (x # xs)] = n # [Suc n..<Suc n + length xs]"
    by (subst upt_rec) simp
  with Cons [of "Suc n"] show ?case by simp
qed

lemma chunk_entries_ids:
  "map e_id (chunk_entries c d text) = map (\<lambda>i. (d_path d, i)) [0..<length (split c text)]"
  using map_fst_enumerate_upt [of "\<lambda>i. (d_path d, i)" 0 "split c text"]
  by (simp add: chunk_entries_def case_prod_beta comp_def)


lemma distinct_chunk_entries: "distinct (map e_id (chunk_entries c d text))"
  by (simp add: chunk_entries_ids distinct_map inj_on_def)

lemma chunk_entries_paths:
  "e \<in> set (chunk_entries c d text) \<Longrightarrow> fst (e_id e) = d_path d \<and> e_file_type e = d_type d"
  by (auto simp: chunk_entries_def)














lemma dot_self_nonneg: "0 \<le> dot a a"
proof -
  have "0 \<le> sum_list (map (\<lambda>(x, y). x * y) (zip a a))"
    by (rule sum_list_nonneg) (auto simp: zip_same)
  then show ?thesis by (simp add: dot_def)
qed

lemma dot_Cons: "dot (x # xs) (y # ys) = x * y + dot xs ys"
  by (simp add: dot_def)

lemma dot_Nil: "dot [] b = 0" "dot a [] = 0"
  by (simp_all add: dot_def)

lemma cross_term_bound:
  fixes A B D x y :: real
  assumes "D\<^sup>2 \<le> A * B" "0 \<le> A" "0 \<le> B"
  shows "2 * D * x * y \<le> A * y\<^sup>2 + B * x\<^sup>2"
proof -
  have nonneg: "0 \<le> A * y\<^sup>2 + B * x\<^sup>2" using assms by simp
  have "(2 * D * x * y)\<^sup>2 = 4 * D\<^sup>2 * (x\<^sup>2 * y\<^sup>2)"
    by (simp add: power2_eq_square algebra_simps)
  also have "\<dots> \<le> 4 * (A * B) * (x\<^sup>2 * y\<^sup>2)"
    using assms(1) by (intro mult_right_mono mult_left_mono) simp_all
  also have "\<dots> \<le> (A * y\<^sup>2 + B * x\<^sup>2)\<^sup>2"
  proof -
    have "(A * y\<^sup>2 + B * x\<^sup>2)\<^sup>2 - 4 * (A * B) * (x\<^sup>2 * y\<^sup>2) = (A * y\<^sup>2 - B * x\<^sup>2)\<^sup>2"
      by (simp add: power2_eq_square algebra_simps)
    moreover have "0 \<le> (A * y\<^sup>2 - B * x\<^sup>2)\<^sup>2" by simp
    ultimately show ?thesis by linarith
  qed
  finally have "(2 * D * x * y)\<^sup>2 \<le> (A * y\<^sup>2 + B * x\<^sup>2)\<^sup>2" .
  with nonneg show ?thesis by (metis power2_le_imp_le)
qed

lemma dot_cauchy_schwarz: "(dot a b)\<^sup>2 \<le> dot a a * dot b b"
proof (induction a b rule: list_induct2')
  case 1
  show ?case by (simp add: dot_Nil)
next
  case (2 x xs)
  show ?case by (simp add: dot_Nil)
next
  case (3 y ys)
  show ?case by (simp add: dot_Nil)
next
  case (4 x xs y ys)
  let ?D = "dot xs ys" and ?A = "dot xs xs" and ?B = "dot ys ys"
  have cross: "2 * ?D * x * y \<le> ?A * y\<^sup>2 + ?B * x\<^sup>2"
    by (intro cross_term_bound 4 dot_self_nonneg)
  have "(dot (x # xs) (y # ys))\<^sup>2 = ?D\<^sup>2 + 2 * ?D * x * y + x\<^sup>2 * y\<^sup>2"
    by (simp add: dot_Cons power2_eq_square algebra_simps)
  also have "\<dots> \<le> ?A * ?B + (?A * y\<^sup>2 + ?B * x\<^sup>2) + x\<^sup>2 * y\<^sup>2"
    using 4 cross by linarith
  also have "\<dots> = dot (x # xs) (x # xs) * dot (y # ys) (y # ys)"
    by (simp add: dot_Cons power2_eq_square algebra_simps)
  finally show ?case .
qed

lemma cosine_le_one: "cosine_similarity a b \<le> 1"
proof -
  let ?n = "sqrt (dot a a) * sqrt (dot b b)"
  have n: "0 \<le> ?n" using dot_self_nonneg by simp
  have "dot a b \<le> \<bar>dot a b\<bar>" by simp
  also have "\<dots> = sqrt ((dot a b)\<^sup>2)" by simp
  also have "\<dots> \<le> sqrt (dot a a * dot b b)"
    using dot_cauchy_schwarz by (simp only: real_sqrt_le_iff)
  also have "\<dots> = ?n" by (rule real_sqrt_mult)
  finally have le: "dot a b \<le> ?n" .
  show ?thesis
  proof (cases "?n = 0")
    case True
    show ?thesis unfolding cosine_similarity_def True by simp
  next
    case False
    with n have "0 < ?n" by (metis order_le_less)
    with le show ?thesis by (simp add: cosine_similarity_def)
  qed
qed

lemma cosine_self: "dot v v \<noteq> 0 \<Longrightarrow> cosine_similarity v v = 1"
  using dot_self_nonneg [of v] by (simp add: cosine_similarity_def)

lemma rank_key_le:
  "(case a of (i, score) \<Rightarrow> (- score, i)) \<le> (case b of (i, score) \<Rightarrow> (- score, i))
     \<longleftrightarrow> ranks_before a b"
  by (cases a; cases b) (auto simp: ranks_before_def less_eq_prod_def)

lemma rank_key_inj: "inj (\<lambda>(i, score). (- score :: real, i :: chunk_id))"
  by (auto simp: inj_on_def)

lemma search_ranked: "sorted_wrt ranks_before (search q k filters idx)"
proof -
  let ?f = "\<lambda>(i, score). (- score :: real, i :: chunk_id)"
  let ?xs = "map (\<lambda>e. (e_id e, cosine_similarity q (e_vector e)))
         (case filters of None \<Rightarrow> idx | Some keep \<Rightarrow> filter keep idx)"
  have "sorted (map ?f (sort_key ?f ?xs))" by (rule sorted_sort_key)
  then have "sorted_wrt (\<lambda>a b. ?f a \<le> ?f b) (sort_key ?f ?xs)"
    by (simp add: sorted_wrt_map)
  then have "sorted_wrt ranks_before (sort_key ?f ?xs)"
    by (simp add: rank_key_le)
  then have "sorted_wrt ranks_before (take k (sort_key ?f ?xs))"
    by (rule sorted_wrt_take)
  then show ?thesis by (simp add: search_def)
qed

lemma search_top_ranked:
  "\<exists>rest.
     mset (search q k filters idx @ rest) =
       mset (map (\<lambda>e. (e_id e, cosine_similarity q (e_vector e)))
         (case filters of None \<Rightarrow> idx | Some keep \<Rightarrow> filter keep idx)) \<and>
     sorted_wrt ranks_before (search q k filters idx @ rest)"
proof -
  let ?f = "\<lambda>(i, score). (- score :: real, i :: chunk_id)"
  let ?xs = "map (\<lambda>e. (e_id e, cosine_similarity q (e_vector e)))
         (case filters of None \<Rightarrow> idx | Some keep \<Rightarrow> filter keep idx)"
  have whole: "search q k filters idx @ drop k (sort_key ?f ?xs) = sort_key ?f ?xs"
    by (simp add: search_def)
  have "sorted (map ?f (sort_key ?f ?xs))" by (rule sorted_sort_key)
  then have "sorted_wrt (\<lambda>a b. ?f a \<le> ?f b) (sort_key ?f ?xs)"
    by (simp add: sorted_wrt_map)
  then have "sorted_wrt ranks_before (sort_key ?f ?xs)"
    by (simp add: rank_key_le)
  with whole have "sorted_wrt ranks_before (search q k filters idx @ drop k (sort_key ?f ?xs))"
    by simp
  moreover from whole
  have "mset (search q k filters idx @ drop k (sort_key ?f ?xs)) = mset ?xs"
    by simp
  ultimately show ?thesis by blast
qed

lemma search_length:
  "length (search q k filters idx) =
     min k (length (case filters of None \<Rightarrow> idx | Some keep \<Rightarrow> filter keep idx))"
  by (simp add: search_def min.commute)

lemma search_scores:
  "set (search q k filters idx) \<subseteq>
     (\<lambda>e. (e_id e, cosine_similarity q (e_vector e))) `
       set (case filters of None \<Rightarrow> idx | Some keep \<Rightarrow> filter keep idx)"
proof -
  have "set (search q k filters idx) \<subseteq> set (map (\<lambda>e. (e_id e, cosine_similarity q (e_vector e)))
         (case filters of None \<Rightarrow> idx | Some keep \<Rightarrow> filter keep idx))"
    unfolding search_def by (rule order_trans [OF set_take_subset]) simp
  then show ?thesis by simp
qed

lemma search_order_independent:
  assumes "mset idx' = mset idx"
  shows "search q k filters idx' = search q k filters idx"
proof -
  let ?f = "\<lambda>(i, score). (- score :: real, i :: chunk_id)"
  let ?sc = "\<lambda>e. (e_id e, cosine_similarity q (e_vector e))"
  let ?live = "\<lambda>l. case filters of None \<Rightarrow> l | Some keep \<Rightarrow> filter keep l"
  have "mset (?live idx') = mset (?live idx)"
    using assms by (cases filters) simp_all
  then have "mset (map ?sc (?live idx')) = mset (map ?sc (?live idx))" by simp
  moreover have "inj_on ?f (set (map ?sc (?live idx')))"
    using rank_key_inj by (rule inj_on_subset) simp
  moreover have "sorted (map ?f (sort_key ?f (map ?sc (?live idx))))"
    by (rule sorted_sort_key)
  ultimately have "sort_key ?f (map ?sc (?live idx')) = sort_key ?f (map ?sc (?live idx))"
    by (intro sort_key_inj_key_eq) simp_all
  then show ?thesis by (simp add: search_def)
qed

lemma search_self_first:
  assumes mem: "e \<in> set idx" and nonzero: "dot (e_vector e) (e_vector e) \<noteq> 0"
    and k: "0 < k"
    and ties: "\<forall>x\<in>set idx. cosine_similarity (e_vector e) (e_vector x) = 1 \<longrightarrow> e_id e \<le> e_id x"
  shows "\<exists>rest. search (e_vector e) k None idx = (e_id e, 1) # rest"
proof -
  let ?q = "e_vector e"
  let ?f = "\<lambda>(i, score). (- score :: real, i :: chunk_id)"
  let ?sc = "\<lambda>x. (e_id x, cosine_similarity ?q (e_vector x))"
  let ?ys = "sort_key ?f (map ?sc idx)"
  let ?top = "(e_id e, 1 :: real)"
  from nonzero have "?sc e = ?top" by (simp add: cosine_self)
  with mem have top_in: "?top \<in> set ?ys" by (metis (no_types, lifting) image_eqI set_map set_sort)
  then obtain h rest where ys: "?ys = h # rest" by (cases ?ys) auto
  have "sorted (map ?f ?ys)" by (rule sorted_sort_key)
  with ys top_in have "?f h \<le> ?f ?top" by auto
  moreover have "?f ?top \<le> ?f h"
  proof -
    from ys have "h \<in> set ?ys" by simp
    then obtain x where x: "x \<in> set idx" "h = ?sc x" by auto
    have le: "cosine_similarity ?q (e_vector x) \<le> 1" by (rule cosine_le_one)
    show ?thesis
    proof (cases "cosine_similarity ?q (e_vector x) = 1")
      case True
      with ties x(1) have "e_id e \<le> e_id x" by simp
      with True x(2) show ?thesis by (simp add: less_eq_prod_def)
    next
      case False
      with le have "cosine_similarity ?q (e_vector x) < 1" by simp
      with x(2) show ?thesis by (simp add: less_eq_prod_def)
    qed
  qed
  ultimately have "?f h = ?f ?top" by simp
  then have "h = ?top" using rank_key_inj by (simp add: inj_on_def case_prod_beta prod_eq_iff)
  with ys k have "search ?q k None idx = ?top # take (k - 1) rest"
    by (cases k) (simp_all add: search_def)
  then show ?thesis by blast
qed

subsection \<open>Retrieval on an empty index\<close>

text \<open>
  Claim C6. On an empty index, \<open>retrieve\<close> returns the empty result for every
  query text, every \<open>k\<close>, every conversation context and every threshold, and
  so does \<open>search\<close>. Both are total functions: nothing is raised.
\<close>

theorem retrieve_empty_index:
  "search query_vector k filters [] = [] \<and>
   retrieve c [] min_similarity query_text k conversation_context = []"
  by (simp add: retrieve_def search_def split: option.splits)

theorem retrieve_empty_index_witness:
  "retrieve example_collaborators [] None ''anything'' 5 [] = []"
  using retrieve_empty_index [of "embed_query example_collaborators ''anything''" 5 None
      example_collaborators None "''anything''" "[]"]
  by simp

subsection \<open>Ranking of search results\<close>

text \<open>
  Claim C3, as the model has it. For every query vector and every \<open>k\<close>, the
  result of \<open>search\<close> is ranked by falling cosine similarity with ties in
  rising chunk ID; it has \<open>k\<close> results, or as many as there are live entries
  when these are fewer; every result is the ID of a live entry with its
  similarity to the query; the results are the head of the ranking of all
  live entries, so that every entry left out ranks after every result; and the
  ranking does not depend on the order in which the index holds its entries. For a query vector equal to the vector of
  an indexed chunk, that chunk is returned first with similarity 1 provided
  that \<open>k\<close> is positive, the vector is not the zero vector, and no entry of
  similarity 1 has a smaller chunk ID.
\<close>

theorem search_ranked_bounded_self_first:
  "sorted_wrt ranks_before (search q k filters idx) \<and>
   length (search q k filters idx) =
     min k (length (case filters of None \<Rightarrow> idx | Some keep \<Rightarrow> filter keep idx)) \<and>
   set (search q k filters idx) \<subseteq>
     (\<lambda>x. (e_id x, cosine_similarity q (e_vector x))) `
       set (case filters of None \<Rightarrow> idx | Some keep \<Rightarrow> filter keep idx) \<and>
   (\<exists>rest.
      mset (search q k filters idx @ rest) =
        mset (map (\<lambda>x. (e_id x, cosine_similarity q (e_vector x)))
          (case filters of None \<Rightarrow> idx | Some keep \<Rightarrow> filter keep idx)) \<and>
      sorted_wrt ranks_before (search q k filters idx @ rest)) \<and>
   (mset idx' = mset idx \<longrightarrow> search q k filters idx' = search q k filters idx) \<and>
   (e \<in> set idx \<and> dot (e_vector e) (e_vector e) \<noteq> 0 \<and> 0 < k \<and>
    (\<forall>x\<in>set idx. cosine_similarity (e_vector e) (e_vector x) = 1 \<longrightarrow> e_id e \<le> e_id x) \<longrightarrow>
    (\<exists>rest. search (e_vector e) k None idx = (e_id e, 1) # rest))"
  using search_ranked [of q k filters idx] search_length [of q k filters idx]
    search_scores [of q k filters idx] search_top_ranked [of q k filters idx]
    search_order_independent [of idx' idx q k filters] search_self_first [of e idx k]
  by blast

theorem search_ranked_bounded_self_first_witness:
  "search [3, 4] 2 None example_entries =
     [((''/notes/a.md'', 0), 1), ((''/notes/c.md'', 0), 4 / 5)] \<and>
   search [3, 4] 2 None (rev example_entries) = search [3, 4] 2 None example_entries"
  using search_ranked_bounded_self_first [of "[3, 4]" 2 None example_entries
      "rev example_entries"
      "\<lparr>e_id = (''/notes/a.md'', 0), e_vector = [3, 4], e_text = ''yaks'',
        e_filename = ''/notes/a.md'', e_file_type = ''md''\<rparr>"]
  by (simp add: example_entries_def search_def cosine_similarity_def dot_def)

text \<open>
  The claim as first stated fails where two chunks have the same vector (the
  same text in two documents): the tie is broken by chunk ID, so a query with
  the vector of the chunk of \<^verbatim>\<open>/notes/b.md\<close> returns the chunk of
  \<^verbatim>\<open>/notes/a.md\<close> first.
\<close>

theorem search_self_not_first_counterexample:
  "search [1, 0] 1 None
     [\<lparr>e_id = (''/notes/b.md'', 0), e_vector = [1, 0], e_text = ''yaks'',
       e_filename = ''/notes/b.md'', e_file_type = ''md''\<rparr>,
      \<lparr>e_id = (''/notes/a.md'', 0), e_vector = [1, 0], e_text = ''yaks'',
       e_filename = ''/notes/a.md'', e_file_type = ''md''\<rparr>]
   = [((''/notes/a.md'', 0), 1)]"
  by (simp add: search_def cosine_similarity_def dot_def)

subsection \<open>Prompt truncation and cited sources\<close>

text \<open>
  Claim C5. When the combined length of the retrieved chunks is over the prompt
  budget, the chunks in the prompt are a proper prefix of the ranking: the
  lowest-ranked chunks are left out entirely, every included chunk stands in
  the prompt with its whole text, the prompt is within the budget unless no
  chunk is left, and no longer prefix of the ranking would have fitted. The
  source list of the structured answer, which \<open>parse_response\<close> draws from the
  whole retrieval result, is the deduplicated list of the (filename,
  similarity) pairs of the included chunks, in ranking order, and of no
  others.
\<close>

theorem prompt_truncation_drops_lowest_ranked:
  assumes over: "budget < sum_list (map (\<lambda>r. length (e_text (fst r))) ranked)"
  shows "\<exists>n<length ranked.
    build_prompt budget question ranked history = assemble question history (take n ranked) \<and>
    (\<forall>r\<in>set (take n ranked). \<exists>before after.
       build_prompt budget question ranked history = before @ e_text (fst r) @ after) \<and>
    (n = 0 \<or> length (build_prompt budget question ranked history) \<le> budget) \<and>
    (\<forall>m. n < m \<and> m \<le> length ranked \<longrightarrow>
       budget < length (assemble question history (take m ranked))) \<and>
    answer_text (parse_response budget question history raw ranked) = raw \<and>
    sources (parse_response budget question history raw ranked) =
      dedup (map (\<lambda>r. (e_filename (fst r), snd r)) (take n ranked)) \<and>
    distinct (sources (parse_response budget question history raw ranked)) \<and>
    set (sources (parse_response budget question history raw ranked)) =
      (\<lambda>r. (e_filename (fst r), snd r)) ` set (take n ranked)"
proof -
  obtain n where n: "n \<le> length ranked"
    "fit_chunks budget question history ranked = take n ranked"
    and maximal: "\<forall>m. n < m \<and> m \<le> length ranked \<longrightarrow>
       budget < length (assemble question history (take m ranked))"
    using fit_chunks_maximal by blast
  have "n \<noteq> length ranked"
  proof
    assume "n = length ranked"
    with n have whole: "fit_chunks budget question history ranked = ranked" by simp
    from over have "ranked \<noteq> []" by auto
    with whole fit_chunks_fits [of budget question history ranked]
    have "length (assemble question history ranked) \<le> budget" by simp
    with length_texts_le_assemble [of ranked question history] over show False by simp
  qed
  with n have less: "n < length ranked" by simp
  have prompt: "build_prompt budget question ranked history
      = assemble question history (take n ranked)"
    by (simp add: build_prompt_def n)
  have whole: "\<forall>r\<in>set (take n ranked). \<exists>before after.
       build_prompt budget question ranked history = before @ e_text (fst r) @ after"
    using assemble_holds_text by (simp add: prompt)
  have bounded: "n = 0 \<or> length (build_prompt budget question ranked history) \<le> budget"
    using fit_chunks_fits [of budget question history ranked] less
    by (auto simp: build_prompt_def n)
  have ans: "answer_text (parse_response budget question history raw ranked) = raw"
    by (simp add: parse_response_def)
  have src: "sources (parse_response budget question history raw ranked) =
      dedup (map (\<lambda>r. (e_filename (fst r), snd r)) (take n ranked))"
    by (simp add: parse_response_def n)
  have dist: "distinct (sources (parse_response budget question history raw ranked))"
    by (simp add: src dedup_distinct)
  have sset: "set (sources (parse_response budget question history raw ranked)) =
      (\<lambda>r. (e_filename (fst r), snd r)) ` set (take n ranked)"
    by (simp add: src dedup_set)
  from less prompt whole bounded maximal ans src dist sset show ?thesis by blast
qed

theorem prompt_truncation_drops_lowest_ranked_witness:
  "build_prompt 100 ''why yaks?'' example_retrieval [] =
     ''Answer the question from the notes below.'' @ [CHR 10] @
     ''[source: /notes/a.md]'' @ [CHR 10] @ ''yaks'' @ [CHR 10] @ ''Question: why yaks?'' \<and>
   sources (parse_response 100 ''why yaks?'' [] ''Yaks are hairy.'' example_retrieval)
     = [(''/notes/a.md'', 1)]"
  using prompt_truncation_drops_lowest_ranked [of 100 example_retrieval "''why yaks?''" "[]"
      "''Yaks are hairy.''"]
  by (simp add: example_retrieval_def fit_chunks.simps build_prompt_def assemble_def
      render_chunk_def parse_response_def dedup_def)

subsection \<open>Index statistics\<close>




subsection \<open>Idempotence of ingestion\<close>

lemma find_upsert_entry_same:
  "find (\<lambda>x. e_id x = e_id e) (upsert_entry e idx) = Some e"
  by (induction idx) auto

lemma find_upsert_entry_other:
  "k \<noteq> e_id e \<Longrightarrow> find (\<lambda>x. e_id x = k) (upsert_entry e idx) = find (\<lambda>x. e_id x = k) idx"
  by (induction idx) auto

lemma upsert_entry_present:
  "find (\<lambda>x. e_id x = e_id e) idx = Some e \<Longrightarrow> upsert_entry e idx = idx"
  by (induction idx) (auto split: if_splits)

lemma upsert_entry_absorb:
  "e_id e = e_id e' \<Longrightarrow> upsert_entry e (upsert_entry e' idx) = upsert_entry e idx"
  by (induction idx) auto

lemma upsert_entry_commute:
  "e_id e \<noteq> e_id e' \<Longrightarrow> find (\<lambda>x. e_id x = e_id e) idx \<noteq> None \<Longrightarrow>
   upsert_entry e (upsert_entry e' idx) = upsert_entry e' (upsert_entry e idx)"
  by (induction idx) auto

lemma find_upsert_other:
  "k \<notin> e_id ` set es \<Longrightarrow> find (\<lambda>x. e_id x = k) (upsert es idx) = find (\<lambda>x. e_id x = k) idx"
  unfolding upsert_def by (induction es arbitrary: idx) (auto simp: find_upsert_entry_other)

lemma find_upsert_entry_keeps:
  "find (\<lambda>x. e_id x = k) idx \<noteq> None \<Longrightarrow> find (\<lambda>x. e_id x = k) (upsert_entry e idx) \<noteq> None"
  by (cases "k = e_id e") (simp_all add: find_upsert_entry_same find_upsert_entry_other)

lemma find_upsert_keeps:
  "find (\<lambda>x. e_id x = k) idx \<noteq> None \<Longrightarrow> find (\<lambda>x. e_id x = k) (upsert es idx) \<noteq> None"
proof (induction es arbitrary: idx)
  case Nil
  then show ?case by (simp add: upsert_def)
next
  case (Cons a es)
  from Cons.prems have "find (\<lambda>x. e_id x = k) (upsert_entry a idx) \<noteq> None"
    by (rule find_upsert_entry_keeps)
  then have "find (\<lambda>x. e_id x = k) (upsert es (upsert_entry a idx)) \<noteq> None"
    by (rule Cons.IH)
  then show ?case by (simp add: upsert_def)
qed

lemma upsert_Cons: "upsert (e # es) idx = upsert es (upsert_entry e idx)"
  by (simp add: upsert_def)

lemma upsert_overwritten:
  "e_id e \<in> e_id ` set es \<Longrightarrow> find (\<lambda>x. e_id x = e_id e) y \<noteq> None \<Longrightarrow>
   upsert es (upsert_entry e y) = upsert es y"
proof (induction es arbitrary: y)
  case Nil
  then show ?case by simp
next
  case (Cons a es)
  show ?case
  proof (cases "e_id a = e_id e")
    case True
    then show ?thesis by (simp add: upsert_Cons upsert_entry_absorb)
  next
    case False
    with Cons.prems have mem: "e_id e \<in> e_id ` set es" by auto
    from False Cons.prems(2) have "upsert_entry a (upsert_entry e y) = upsert_entry e (upsert_entry a y)"
      by (simp add: upsert_entry_commute [of e a y])
    moreover have "find (\<lambda>x. e_id x = e_id e) (upsert_entry a y) \<noteq> None"
      using Cons.prems(2) by (rule find_upsert_entry_keeps)
    ultimately show ?thesis using Cons.IH [OF mem] by (simp add: upsert_Cons)
  qed
qed

lemma upsert_idempotent: "upsert es (upsert es idx) = upsert es idx"
proof (induction es arbitrary: idx)
  case Nil
  show ?case by (simp add: upsert_def)
next
  case (Cons e es)
  let ?y = "upsert_entry e idx"
  let ?w = "upsert es ?y"
  have present: "find (\<lambda>x. e_id x = e_id e) ?w \<noteq> None"
    by (rule find_upsert_keeps) (simp add: find_upsert_entry_same)
  have "upsert es (upsert_entry e ?w) = ?w"
  proof (cases "e_id e \<in> e_id ` set es")
    case True
    then have "upsert es (upsert_entry e ?w) = upsert es ?w"
      using present by (rule upsert_overwritten)
    with Cons.IH show ?thesis by simp
  next
    case False
    then have "find (\<lambda>x. e_id x = e_id e) ?w = find (\<lambda>x. e_id x = e_id e) ?y"
      by (rule find_upsert_other)
    then have "find (\<lambda>x. e_id x = e_id e) ?w = Some e"
      by (simp add: find_upsert_entry_same)
    then have "upsert_entry e ?w = ?w" by (rule upsert_entry_present)
    with Cons.IH show ?thesis by simp
  qed
  then show ?case by (simp add: upsert_Cons)
qed

lemma upsert_entry_ids:
  "map e_id (upsert_entry e idx) =
     (if e_id e \<in> set (map e_id idx) then map e_id idx else map e_id idx @ [e_id e])"
  by (induction idx) auto

lemma distinct_upsert_entry:
  "distinct (map e_id idx) \<Longrightarrow> distinct (map e_id (upsert_entry e idx))"
  by (simp add: upsert_entry_ids)

lemma distinct_upsert:
  "distinct (map e_id idx) \<Longrightarrow> distinct (map e_id (upsert es idx))"
  unfolding upsert_def by (induction es arbitrary: idx) (auto simp: distinct_upsert_entry)

lemma find_upsert_member:
  "distinct (map e_id es) \<Longrightarrow> e \<in> set es \<Longrightarrow>
   find (\<lambda>x. e_id x = e_id e) (upsert es idx) = Some e"
proof (induction es arbitrary: idx)
  case Nil
  then show ?case by simp
next
  case (Cons a es)
  show ?case
  proof (cases "e = a")
    case True
    with Cons.prems have "e_id e \<notin> e_id ` set es" by auto
    then have "find (\<lambda>x. e_id x = e_id e) (upsert es (upsert_entry a idx))
        = find (\<lambda>x. e_id x = e_id e) (upsert_entry a idx)"
      by (rule find_upsert_other)
    with True show ?thesis by (simp add: upsert_Cons find_upsert_entry_same)
  next
    case False
    with Cons show ?thesis by (simp add: upsert_Cons)
  qed
qed

lemma upsert_present:
  "\<forall>e\<in>set es. find (\<lambda>x. e_id x = e_id e) idx = Some e \<Longrightarrow> upsert es idx = idx"
  by (induction es) (simp_all add: upsert_def upsert_entry_present)

lemma fold_fixed: "\<forall>x\<in>set xs. f x s = s \<Longrightarrow> fold f xs s = s"
  by (induction xs) simp_all

lemma tracker_remove_fold:
  "tracker (fold remove_document ps st) = fold AList.delete ps (tracker st)"
  by (induction ps arbitrary: st) (simp_all add: remove_document_def)

lemma tracker_retire_fold: "tracker (fold retire_chunks ds st) = tracker st"
  by (induction ds arbitrary: st) (simp_all add: retire_chunks_def)

lemma map_of_fold_delete:
  "map_of (fold AList.delete ps table) k = (if k \<in> set ps then None else map_of table k)"
  by (induction ps arbitrary: table) (auto simp: delete_conv')

lemma tracker_process_document:
  "tracker (process_document c d st) =
     (case extract_text c d of
        None \<Rightarrow> AList.delete (d_path d) (tracker st)
      | Some body \<Rightarrow> AList.update (d_path d) (fingerprint_of d) (tracker st))"
  by (simp add: process_document_def split: option.splits)

lemma index_process_document:
  "index (process_document c d st) =
     (case extract_text c d of
        None \<Rightarrow> index st
      | Some body \<Rightarrow> upsert (chunk_entries c d body) (index st))"
  by (simp add: process_document_def split: option.splits)

lemma map_of_tracker_process_out:
  "k \<notin> d_path ` set ds \<Longrightarrow>
   map_of (tracker (fold (process_document c) ds st)) k = map_of (tracker st) k"
proof (induction ds arbitrary: st)
  case Nil
  show ?case by simp
next
  case (Cons d ds)
  then have "map_of (tracker (fold (process_document c) ds (process_document c d st))) k
      = map_of (tracker (process_document c d st)) k" by simp
  also have "\<dots> = map_of (tracker st) k"
    using Cons.prems
    by (auto simp: tracker_process_document update_conv' delete_conv' split: option.splits)
  finally show ?case by simp
qed

lemma map_of_tracker_process_in:
  "distinct (map d_path ds) \<Longrightarrow> d \<in> set ds \<Longrightarrow>
   map_of (tracker (fold (process_document c) ds st)) (d_path d) =
     (case extract_text c d of None \<Rightarrow> None | Some body \<Rightarrow> Some (fingerprint_of d))"
proof (induction ds arbitrary: st)
  case Nil
  then show ?case by simp
next
  case (Cons a ds)
  show ?case
  proof (cases "d = a")
    case True
    with Cons.prems have "d_path d \<notin> d_path ` set ds" by simp
    then have "map_of (tracker (fold (process_document c) ds (process_document c a st))) (d_path d)
        = map_of (tracker (process_document c a st)) (d_path d)"
      by (rule map_of_tracker_process_out)
    with True show ?thesis
      by (simp add: tracker_process_document update_conv' delete_conv' split: option.splits)
  next
    case False
    with Cons show ?thesis by simp
  qed
qed

lemma find_index_process_out:
  "fst k \<notin> d_path ` set ds \<Longrightarrow>
   find (\<lambda>x. e_id x = k) (index (fold (process_document c) ds st))
     = find (\<lambda>x. e_id x = k) (index st)"
proof (induction ds arbitrary: st)
  case Nil
  show ?case by simp
next
  case (Cons d ds)
  then have "find (\<lambda>x. e_id x = k) (index (fold (process_document c) ds (process_document c d st)))
      = find (\<lambda>x. e_id x = k) (index (process_document c d st))" by simp
  also have "\<dots> = find (\<lambda>x. e_id x = k) (index st)"
  proof (cases "extract_text c d")
    case None
    then show ?thesis by (simp add: index_process_document)
  next
    case (Some body)
    have "k \<notin> e_id ` set (chunk_entries c d body)"
    proof
      assume "k \<in> e_id ` set (chunk_entries c d body)"
      then obtain e where "e \<in> set (chunk_entries c d body)" "k = e_id e" by auto
      then have "fst k = d_path d" by (simp add: chunk_entries_paths)
      with Cons.prems show False by simp
    qed
    with Some show ?thesis by (simp add: index_process_document find_upsert_other)
  qed
  finally show ?case by simp
qed

lemma find_index_process_in:
  "distinct (map d_path ds) \<Longrightarrow> d \<in> set ds \<Longrightarrow> extract_text c d = Some body \<Longrightarrow>
   e \<in> set (chunk_entries c d body) \<Longrightarrow>
   find (\<lambda>x. e_id x = e_id e) (index (fold (process_document c) ds st)) = Some e"
proof (induction ds arbitrary: st)
  case Nil
  then show ?case by simp
next
  case (Cons a ds)
  show ?case
  proof (cases "d = a")
    case True
    from Cons.prems(4) have "fst (e_id e) = d_path d" by (simp add: chunk_entries_paths)
    with True Cons.prems(1) have "fst (e_id e) \<notin> d_path ` set ds" by simp
    then have "find (\<lambda>x. e_id x = e_id e)
          (index (fold (process_document c) ds (process_document c a st)))
        = find (\<lambda>x. e_id x = e_id e) (index (process_document c a st))"
      by (rule find_index_process_out)
    also have "\<dots> = Some e"
      using True Cons.prems(3,4)
      by (simp add: index_process_document find_upsert_member distinct_chunk_entries)
    finally show ?thesis by simp
  next
    case False
    with Cons show ?thesis by simp
  qed
qed

lemma process_document_fixed:
  assumes "case extract_text c d of
      None \<Rightarrow> map_of (tracker st) (d_path d) = None
    | Some body \<Rightarrow> map_of (tracker st) (d_path d) = Some (fingerprint_of d) \<and>
        (\<forall>e\<in>set (chunk_entries c d body). find (\<lambda>x. e_id x = e_id e) (index st) = Some e)"
  shows "process_document c d st = st"
proof (cases "extract_text c d")
  case None
  with assms have "d_path d \<notin> fst ` set (tracker st)"
    by (simp add: map_of_eq_None_iff)
  with None show ?thesis by (simp add: process_document_def)
next
  case (Some body)
  with assms have "AList.update (d_path d) (fingerprint_of d) (tracker st) = tracker st"
    "upsert (chunk_entries c d body) (index st) = index st"
    by (simp_all add: update_triv upsert_present)
  with Some show ?thesis by (simp add: process_document_def)
qed

lemma run_pass_state:
  "fst (run_pass c full_rebuild listing st) =
     fold (process_document c)
       (added (scan full_rebuild listing (tracker st))
          @ modified (scan full_rebuild listing (tracker st)))
       (fold retire_chunks (modified (scan full_rebuild listing (tracker st)))
          (fold remove_document (removed (scan full_rebuild listing (tracker st))) st))"
  by (simp add: run_pass_def Let_def)

lemma distinct_paths_two_filters:
  assumes "distinct (map d_path xs)" and "\<forall>x\<in>set xs. \<not> (P x \<and> Q x)"
  shows "distinct (map d_path (filter P xs @ filter Q xs))"
proof -
  from assms(1) have inj: "inj_on d_path (set xs)" by (simp add: distinct_map)
  have "d_path ` set (filter P xs) \<inter> d_path ` set (filter Q xs) = {}"
  proof (rule ccontr)
    assume "d_path ` set (filter P xs) \<inter> d_path ` set (filter Q xs) \<noteq> {}"
    then obtain x y where xy: "x \<in> set xs" "P x" "y \<in> set xs" "Q y" "d_path x = d_path y"
      by auto
    with inj have "x = y" by (simp add: inj_on_def)
    with xy assms(2) show False by blast
  qed
  with assms(1) show ?thesis by (simp add: distinct_map_filter)
qed

lemma run_pass_twice:
  assumes paths: "distinct (map d_path listing)"
  shows "fst (run_pass c full_rebuild listing (fst (run_pass c full_rebuild listing st)))
    = fst (run_pass c full_rebuild listing st)"
proof -
  define ch where "ch = scan full_rebuild listing (tracker st)"
  define processed where "processed = added ch @ modified ch"
  define st0 where "st0 = fold retire_chunks (modified ch) (fold remove_document (removed ch) st)"
  define st1 where "st1 = fold (process_document c) processed st0"
  have first: "fst (run_pass c full_rebuild listing st) = st1"
    by (simp add: run_pass_state ch_def processed_def st0_def st1_def)
  from paths have inj: "inj_on d_path (set listing)" by (simp add: distinct_map)
  have sub: "set processed \<subseteq> set listing"
    by (auto simp: processed_def ch_def scan_def)
  have dp: "distinct (map d_path processed)"
    unfolding processed_def ch_def scan_def scan_result.simps
    by (rule distinct_paths_two_filters [OF paths]) (auto split: option.splits)
  have tr0: "map_of (tracker st0) k =
      (if k \<in> set (removed ch) then None else map_of (tracker st) k)" for k
    by (simp add: st0_def tracker_retire_fold tracker_remove_fold map_of_fold_delete)
  have in_proc: "map_of (tracker st1) (d_path d) =
      (case extract_text c d of None \<Rightarrow> None | Some body \<Rightarrow> Some (fingerprint_of d))"
    if "d \<in> set processed" for d
    unfolding st1_def using dp that by (rule map_of_tracker_process_in)
  have not_proc: "map_of (tracker st1) (d_path d) = Some (fingerprint_of d)"
    if d: "d \<in> set listing" "d \<notin> set processed" for d
  proof -
    have "d_path d \<notin> d_path ` set processed"
    proof
      assume "d_path d \<in> d_path ` set processed"
      then obtain d' where d': "d' \<in> set processed" "d_path d = d_path d'" by auto
      with sub d(1) inj have "d = d'" by (auto simp: inj_on_def)
      with d' d(2) show False by simp
    qed
    then have "map_of (tracker st1) (d_path d) = map_of (tracker st0) (d_path d)"
      unfolding st1_def by (rule map_of_tracker_process_out)
    also have "\<dots> = map_of (tracker st) (d_path d)"
      using d(1) by (simp add: tr0 ch_def scan_def)
    also have "\<dots> = Some (fingerprint_of d)"
      using d by (auto simp: processed_def ch_def scan_def split: option.splits)
    finally show ?thesis .
  qed
  have outside: "map_of (tracker st1) k = None" if k: "k \<notin> d_path ` set listing" for k
  proof -
    from k sub have "k \<notin> d_path ` set processed" by auto
    then have "map_of (tracker st1) k = map_of (tracker st0) k"
      unfolding st1_def by (rule map_of_tracker_process_out)
    also have "\<dots> = None"
    proof (cases "map_of (tracker st) k")
      case None
      then show ?thesis by (simp add: tr0)
    next
      case (Some s)
      then have "k \<in> fst ` set (tracker st)" by (metis map_of_eq_None_iff option.distinct(1))
      with k have "k \<in> set (removed ch)" by (simp add: ch_def scan_def)
      then show ?thesis by (simp add: tr0)
    qed
    finally show ?thesis .
  qed
  define ch2 where "ch2 = scan full_rebuild listing (tracker st1)"
  have no_removed: "removed ch2 = []"
  proof -
    have "p \<in> set (map d_path listing)" if "p \<in> set (map fst (tracker st1))" for p
    proof (rule ccontr)
      assume "p \<notin> set (map d_path listing)"
      then have "map_of (tracker st1) p = None" using outside by simp
      with that show False by (simp add: map_of_eq_None_iff)
    qed
    then show ?thesis by (simp add: ch2_def scan_def filter_empty_conv)
  qed
  have known: "map_of (tracker st1) (d_path d) = None \<and> extract_text c d = None \<and> d \<in> set processed
      \<or> map_of (tracker st1) (d_path d) = Some (fingerprint_of d)"
    if "d \<in> set listing" for d
  proof (cases "d \<in> set processed")
    case True
    then show ?thesis using in_proc [OF True] by (cases "extract_text c d") simp_all
  next
    case False
    with that show ?thesis by (simp add: not_proc)
  qed
  have no_modified: "modified ch2 = []"
    using known by (fastforce simp: ch2_def scan_def filter_empty_conv split: option.splits)
  have fixed: "process_document c d st1 = st1" if d: "d \<in> set (added ch2)" for d
  proof (rule process_document_fixed)
    from d have dl: "d \<in> set listing"
      and why: "full_rebuild \<or> map_of (tracker st1) (d_path d) = None"
      by (simp_all add: ch2_def scan_def)
    have dproc: "d \<in> set processed"
    proof (cases full_rebuild)
      case True
      with dl show ?thesis by (simp add: processed_def ch_def scan_def)
    next
      case False
      with why known [OF dl] show ?thesis by auto
    qed
    show "case extract_text c d of
        None \<Rightarrow> map_of (tracker st1) (d_path d) = None
      | Some body \<Rightarrow> map_of (tracker st1) (d_path d) = Some (fingerprint_of d) \<and>
          (\<forall>e\<in>set (chunk_entries c d body).
             find (\<lambda>x. e_id x = e_id e) (index st1) = Some e)"
    proof (cases "extract_text c d")
      case None
      with in_proc [OF dproc] show ?thesis by simp
    next
      case (Some body)
      have "\<forall>e\<in>set (chunk_entries c d body).
          find (\<lambda>x. e_id x = e_id e) (index st1) = Some e"
        unfolding st1_def using find_index_process_in [OF dp dproc Some] by blast
      with Some in_proc [OF dproc] show ?thesis by simp
    qed
  qed
  have "fst (run_pass c full_rebuild listing st1) = fold (process_document c) (added ch2) st1"
    using no_removed no_modified by (simp add: run_pass_state ch2_def)
  also have "\<dots> = st1" using fixed by (intro fold_fixed) simp
  finally show ?thesis by (simp add: first)
qed

lemma distinct_ids_delete_by_document:
  "distinct (map e_id idx) \<Longrightarrow> distinct (map e_id (delete_by_document p idx))"
  by (simp add: delete_by_document_def distinct_map_filter)

lemma distinct_ids_run_pass:
  assumes "distinct (map e_id (index st))"
  shows "distinct (map e_id (index (fst (run_pass c full_rebuild listing st))))"
proof -
  have rem: "distinct (map e_id (index s)) \<Longrightarrow>
      distinct (map e_id (index (fold remove_document ps s)))" for ps s
    by (induction ps arbitrary: s)
      (simp_all add: remove_document_def distinct_ids_delete_by_document)
  have ret: "distinct (map e_id (index s)) \<Longrightarrow>
      distinct (map e_id (index (fold retire_chunks ds s)))" for ds s
    by (induction ds arbitrary: s)
      (simp_all add: retire_chunks_def distinct_ids_delete_by_document)
  have pro: "distinct (map e_id (index s)) \<Longrightarrow>
      distinct (map e_id (index (fold (process_document c) ds s)))" for ds s
    by (induction ds arbitrary: s)
      (simp_all add: index_process_document distinct_upsert split: option.splits)
  from assms show ?thesis
    unfolding run_pass_state by (intro pro ret rem)
qed

text \<open>
  Claim C4. \<open>upsert\<close> is idempotent. A second ingestion pass over an unchanged
  directory listing (every path once), incremental or as a full rebuild, leaves
  the tracker and the index exactly as the first pass left them, so no chunk ID
  changes; and an index without duplicate chunk IDs has none after a pass or
  after two.
\<close>

theorem ingestion_idempotent:
  "upsert new_entries (upsert new_entries idx) = upsert new_entries idx \<and>
   (distinct (map d_path listing) \<longrightarrow>
      fst (run_pass c full_rebuild listing (fst (run_pass c full_rebuild listing st)))
        = fst (run_pass c full_rebuild listing st) \<and>
      map e_id (index (fst (run_pass c full_rebuild listing
          (fst (run_pass c full_rebuild listing st)))))
        = map e_id (index (fst (run_pass c full_rebuild listing st)))) \<and>
   (distinct (map e_id (index st)) \<longrightarrow>
      distinct (map e_id (index (fst (run_pass c full_rebuild listing st)))) \<and>
      distinct (map e_id (index (fst (run_pass c full_rebuild listing
          (fst (run_pass c full_rebuild listing st)))))))"
  using upsert_idempotent [of new_entries idx]
    run_pass_twice [of listing c full_rebuild st]
    distinct_ids_run_pass [of st c full_rebuild listing]
    distinct_ids_run_pass [of "fst (run_pass c full_rebuild listing st)" c full_rebuild listing]
  by simp

theorem ingestion_idempotent_witness:
  "fst (run_pass example_collaborators True example_pdf_listing
      (fst (run_pass example_collaborators True example_pdf_listing example_stale_state)))
    = fst (run_pass example_collaborators True example_pdf_listing example_stale_state) \<and>
   map e_id (index (fst (run_pass example_collaborators True example_pdf_listing
      (fst (run_pass example_collaborators True example_pdf_listing example_stale_state)))))
    = [(''/notes/a.md'', 0), (''/notes/a.md'', 1), (''/notes/b.md'', 0),
       (''/notes/c.md'', 0), (''/notes/c.md'', 1)]"
proof -
  have first: "map e_id (index (fst (run_pass example_collaborators True example_pdf_listing
      example_stale_state)))
    = [(''/notes/a.md'', 0), (''/notes/a.md'', 1), (''/notes/b.md'', 0),
       (''/notes/c.md'', 0), (''/notes/c.md'', 1)]"
    by (simp add: run_pass_def scan_def Let_def example_pdf_listing_def example_listing_def
        example_stale_state_def example_collaborators_def process_document_def
        remove_document_def delete_by_document_def chunk_entries_def upsert_def
        enumerate_eq_zip upt_rec)
  have "distinct (map d_path example_pdf_listing)"
    by (simp add: example_pdf_listing_def example_listing_def)
  moreover have "distinct (map e_id (index example_stale_state))"
    by (simp add: example_stale_state_def)
  ultimately show ?thesis
    using first ingestion_idempotent [of "[]" "[]" example_pdf_listing example_collaborators
        True example_stale_state]
    by simp
qed

end
